theory Spec2Isabelle
  imports Main "HOL-Library.Sublist"
begin

section \<open>Exceptions, events and the persisted world\<close>

text \<open>
  A Python exception is a value: its class name and its message. Instances of
  \<open>Exception\<close> are what \<^verbatim>\<open>except Exception\<close> catches; the other
  descendants of \<open>BaseException\<close> (KeyboardInterrupt, SystemExit, GeneratorExit)
  are not caught by it.
\<close>

datatype exn = Exception string string | BaseException string string

fun str_exn :: "exn \<Rightarrow> string" where
  "str_exn (Exception c m) = m"
| "str_exn (BaseException c m) = m"

fun is_Exception :: "exn \<Rightarrow> bool" where
  "is_Exception (Exception c m) = True"
| "is_Exception (BaseException c m) = False"

datatype level = DEBUG | INFO | ERROR

text \<open>
  Every effect of the code on the outside is an event of the trace, in the order the
  code performs it: log lines, reads and writes of the two tables, the fetch of an
  object from the store, a sleep, the start of a thread, the construction of a
  Scheduler or of an Executor (on the address given), a line echoed by the CLI.
  \<open>RunSave r s\<close> is \<^verbatim>\<open>run.save()\<close> of run \<open>r\<close> with the status named
  \<open>s\<close> attached.
\<close>

datatype event =
    Logged level string
  | StatusGet string
  | StatusSave string
  | RunGet string
  | RunSave string string
  | RunFilter string
  | ObjectGet string string
  | Slept nat
  | ThreadStarted string
  | SchedulerNew
  | ExecutorNew string
  | Echoed string

text \<open>
  The rows of the two tables the code touches (the classes \<open>Status\<close> and \<open>Run\<close>
  of the models module). A Status row is identified by its primary key and carries the
  field \<open>status\<close>, its name. A Run row refers to its Status row by key, and to its
  script, model and parameters, whose fields the code reads through the relations
  \<open>run.script.path\<close>, \<open>run.model.config\<close> and \<open>run.parameters.config\<close>.
\<close>

record Status =
  pk :: nat
  status :: string

record Run =
  run_id :: string
  run_script_path :: string
  run_model_config :: string
  run_parameters_config :: string
  status_pk :: nat

record world =
  statuses :: "Status list"
  runs :: "Run list"
  trace :: "event list"

definition emit :: "event \<Rightarrow> world \<Rightarrow> world" where
  "emit ev w = w\<lparr>trace := trace w @ [ev]\<rparr>"

definition logger_info :: "string \<Rightarrow> world \<Rightarrow> world" where
  "logger_info msg w = emit (Logged INFO msg) w"

definition logger_error :: "string \<Rightarrow> world \<Rightarrow> world" where
  "logger_error msg w = emit (Logged ERROR msg) w"

definition logger_debug :: "string \<Rightarrow> world \<Rightarrow> world" where
  "logger_debug msg w = emit (Logged DEBUG msg) w"

text \<open>
  A call returns a value, raises, or never returns; in each case the effects it had
  until then stay in the world.
\<close>

datatype 'a outcome = Returns 'a world | Raises exn world | Diverges world

fun world_of :: "'a outcome \<Rightarrow> world" where
  "world_of (Returns x w) = w"
| "world_of (Raises e w) = w"
| "world_of (Diverges w) = w"

section \<open>The canonical status names\<close>

text \<open>
  Modelled from the spec: the constants module is not among the sources; the spec gives
  the canonical states as \<open>created\<close>, \<open>queued\<close>, \<open>running\<close>, \<open>completed\<close>,
  \<open>failed\<close>.
\<close>

definition RUN_STATUS_CREATED :: string where "RUN_STATUS_CREATED = ''created''"
definition RUN_STATUS_QUEUED :: string where "RUN_STATUS_QUEUED = ''queued''"
definition RUN_STATUS_RUNNING :: string where "RUN_STATUS_RUNNING = ''running''"
definition RUN_STATUS_COMPLETED :: string where "RUN_STATUS_COMPLETED = ''completed''"
definition RUN_STATUS_FAILED :: string where "RUN_STATUS_FAILED = ''failed''"

section \<open>The persistence contract\<close>

text \<open>
  Modelled from the spec: \<open>safe_object_get\<close> and the models' \<open>save\<close> are not among
  the sources. The spec's persistence contract gives \<open>get(Run, id) -> Run | not-found\<close>
  and a Status looked up by name; the code tests the result against \<open>None\<close>. The lookup
  returns the first row that matches, or \<open>None\<close>.
\<close>

definition safe_object_get_Status :: "string \<Rightarrow> world \<Rightarrow> Status option \<times> world" where
  "safe_object_get_Status name w =
     (find (\<lambda>s. status s = name) (statuses w), emit (StatusGet name) w)"

definition safe_object_get_Run :: "string \<Rightarrow> world \<Rightarrow> Run option \<times> world" where
  "safe_object_get_Run rid w =
     (find (\<lambda>r. run_id r = rid) (runs w), emit (RunGet rid) w)"

text \<open>
  Modelled from the spec: \<open>Status(status=name).save()\<close> of a new object inserts a row
  under a key no row has yet.
\<close>

definition fresh_pk :: "Status list \<Rightarrow> nat" where
  "fresh_pk rows = Suc (fold max (map pk rows) 0)"

definition Status_save :: "string \<Rightarrow> world \<Rightarrow> Status \<times> world" where
  "Status_save name w =
     (let s = \<lparr>pk = fresh_pk (statuses w), status = name\<rparr>
      in (s, emit (StatusSave name) (w\<lparr>statuses := statuses w @ [s]\<rparr>)))"

text \<open>
  Modelled from the spec: \<open>run.save()\<close> of a row that was fetched writes the row back
  under its id (and inserts it when the row is gone).
\<close>

definition Run_save :: "Run \<Rightarrow> string \<Rightarrow> world \<Rightarrow> world" where
  "Run_save r name w =
     emit (RunSave (run_id r) name)
       (w\<lparr>runs := (if list_ex (\<lambda>x. run_id x = run_id r) (runs w)
                    then map (\<lambda>x. if run_id x = run_id r then r else x) (runs w)
                    else runs w @ [r])\<rparr>)"

text \<open>
  The pattern the executor repeats at every status transition (executor.py lines 47-51,
  128-132, 145-150 and 157-162): look the Status up by name and, when there is none,
  create and save it.
\<close>

definition get_or_create_status :: "string \<Rightarrow> world \<Rightarrow> Status \<times> world" where
  "get_or_create_status name w =
     (case safe_object_get_Status name w of
        (Some s, w1) \<Rightarrow> (s, w1)
      | (None, w1) \<Rightarrow> Status_save name w1)"

text \<open>
  and its second half (lines 52-54, 133-135, 151-153, 163-165): fetch the Run, attach
  the Status, save. On a Run that is not found \<open>run\<close> is \<open>None\<close> and the assignment
  \<^verbatim>\<open>run.status = status\<close> raises AttributeError.
\<close>

definition attach_status :: "string \<Rightarrow> Status \<Rightarrow> world \<Rightarrow> unit outcome" where
  "attach_status rid s w =
     (case safe_object_get_Run rid w of
        (None, w1) \<Rightarrow>
          Raises (Exception ''AttributeError''
                    ''NoneType object has no attribute status'') w1
      | (Some r, w1) \<Rightarrow> Returns () (Run_save (r\<lparr>status_pk := pk s\<rparr>) (status s) w1))"

text \<open>
  Both halves in sequence, as the source writes them at each of its four transitions.
\<close>

definition set_status :: "string \<Rightarrow> string \<Rightarrow> world \<Rightarrow> unit outcome" where
  "set_status name rid w =
     (case get_or_create_status name w of (st, w1) \<Rightarrow> attach_status rid st w1)"

text \<open>The name of the Status a Run currently refers to, as a query would read it.\<close>

definition current_status :: "string \<Rightarrow> world \<Rightarrow> string option" where
  "current_status rid w =
     (case find (\<lambda>r. run_id r = rid) (runs w) of
        None \<Rightarrow> None
      | Some r \<Rightarrow> map_option status (find (\<lambda>s. pk s = status_pk r) (statuses w)))"

text \<open>The status names saved for a Run, in the order of the saves.\<close>

fun status_writes :: "string \<Rightarrow> event list \<Rightarrow> string list" where
  "status_writes rid [] = []"
| "status_writes rid (RunSave r s # evs) =
     (if r = rid then s # status_writes rid evs else status_writes rid evs)"
| "status_writes rid (ev # evs) = status_writes rid evs"

section \<open>The execution backend\<close>

text \<open>
  The state a flow run reports (the state classes of the workflow engine, an external
  library): \<open>Pending\<close> and \<open>Running\<close> are not finished; \<open>Success\<close>,
  \<open>Failed\<close> (which carries the reported result) and \<open>Cancelled\<close> are.
\<close>

datatype State = Pending | Running | Success | Failed string | Cancelled

fun is_finished :: "State \<Rightarrow> bool" where
  "is_finished Pending = False"
| "is_finished Running = False"
| "is_finished Success = True"
| "is_finished (Failed r) = True"
| "is_finished Cancelled = True"

fun is_failed :: "State \<Rightarrow> bool" where
  "is_failed (Failed r) = True"
| "is_failed s = False"

fun is_successful :: "State \<Rightarrow> bool" where
  "is_successful Success = True"
| "is_successful s = False"

fun result :: "State \<Rightarrow> string" where
  "result (Failed r) = r"
| "result s = []"

record Scheduler =
  address :: string

text \<open>
  \<open>Executor.__init__(scheduler, local=False)\<close>: the field \<open>ex_executor\<close> is the
  Dask executor built on the scheduler's address.
\<close>

record Executor =
  ex_scheduler :: Scheduler
  ex_executor :: string
  ex_local :: bool

definition Executor_init :: "Scheduler \<Rightarrow> bool \<Rightarrow> Executor" where
  "Executor_init scheduler local =
     \<lparr>ex_scheduler = scheduler, ex_executor = address scheduler, ex_local = local\<rparr>"

text \<open>
  A flow, as the handler sees it: \<open>flow.run()\<close> (argument \<open>None\<close>) or
  \<open>flow.run(executor=...)\<close>, which returns the state of the run.
\<close>

type_synonym flow_run = "string option \<Rightarrow> world \<Rightarrow> State outcome"

section \<open>Executor._threaded_execution_handler\<close>

text \<open>
  The loop \<^verbatim>\<open>while not state.is_finished(): sleep(0.25)\<close> tests the state object
  that \<open>flow.run\<close> returned and never fetches another: on a state that is not
  finished it does not end.
\<close>

definition threaded_execution_handler ::
    "Executor \<Rightarrow> flow_run \<Rightarrow> string \<Rightarrow> world \<Rightarrow> unit outcome" where
  "threaded_execution_handler self flow rid w =
     (case set_status RUN_STATUS_QUEUED rid w of
        Raises e w2 \<Rightarrow> Raises e w2
      | Diverges w2 \<Rightarrow> Diverges w2
      | Returns u w2 \<Rightarrow>
         (case (if ex_local self
                then flow None (logger_info ''Running locally'' w2)
                else flow (Some (ex_executor self)) (logger_info ''Running on scheduler'' w2)) of
            Raises e w3 \<Rightarrow> Raises e w3
          | Diverges w3 \<Rightarrow> Diverges w3
          | Returns state w3 \<Rightarrow>
             (if \<not> is_finished state then Diverges w3
              else if is_failed state then
                (case set_status RUN_STATUS_FAILED rid w3 of
                   Returns u' w5 \<Rightarrow>
                     Returns () (logger_error
                       (''Job '' @ rid @ '' failed with error: '' @ result state) w5)
                 | Raises e w5 \<Rightarrow> Raises e w5
                 | Diverges w5 \<Rightarrow> Diverges w5)
              else if is_successful state then
                (case set_status RUN_STATUS_COMPLETED rid w3 of
                   Returns u' w5 \<Rightarrow>
                     Returns () (logger_info
                       (''Job '' @ rid @ '' completed successfully'') w5)
                 | Raises e w5 \<Rightarrow> Raises e w5
                 | Diverges w5 \<Rightarrow> Diverges w5)
              else Returns () w3)))"

section \<open>The tasks of the training flow\<close>

text \<open>
  A subprocess, by what the code observes of it: it exits after some number of polls
  that found it running, with its return code, standard output and standard error; or
  it never exits.
\<close>

datatype process = Exits nat int string string | Hangs

text \<open>
  An object of the bucket, by what \<^verbatim>\<open>.read().decode("utf-8")\<close> makes of it: its
  text, or bytes that are not UTF-8, on which the decoding raises.
\<close>

datatype body = Utf8 string | Undecodable

text \<open>
  What lies outside the repository, as the code meets it at one moment: the constructor
  of the Scheduler, an error of the query for new runs, the bucket and its objects (path
  and body), the parsing of a parameters document (\<open>parse_parameters(json.loads(...))\<close>,
  which gives the template variables as strings), the loading of the configuration in
  the \<open>setup\<close> task, the template engine, and the start of a subprocess on a script.
\<close>

record env =
  scheduler_new :: "exn + Scheduler"
  query_error :: "exn option"
  minio_bucket :: string
  minio_objects :: "(string \<times> body) list"
  parse_params :: "string \<Rightarrow> exn + (string \<times> string) list"
  config_error :: "exn option"
  jinja_render :: "string \<Rightarrow> (string \<times> string) list \<Rightarrow> exn + string"
  popen :: "string \<Rightarrow> exn + process"

text \<open>The task \<open>setup\<close> of the source.\<close>

definition setup_task :: "env \<Rightarrow> world \<Rightarrow> unit outcome" where
  "setup_task e w = (case config_error e of Some err \<Rightarrow> Raises err w | None \<Rightarrow> Returns () w)"

definition update_run_status :: "string \<Rightarrow> world \<Rightarrow> unit outcome" where
  "update_run_status rid w = set_status RUN_STATUS_RUNNING rid w"

definition render_template ::
    "env \<Rightarrow> string \<Rightarrow> (string \<times> string) list \<Rightarrow> world \<Rightarrow> string outcome" where
  "render_template e template_text kwargs w =
     (case jinja_render e template_text kwargs of
        Inl err \<Rightarrow> Raises err w
      | Inr text \<Rightarrow> Returns text w)"

text \<open>
  The polling loop of \<open>execute_template\<close>: one debug line and one sleep of ten seconds
  for each poll that finds the process running.
\<close>

fun poll_loop :: "string \<Rightarrow> nat \<Rightarrow> world \<Rightarrow> world" where
  "poll_loop rid 0 w = w"
| "poll_loop rid (Suc n) w =
     poll_loop rid n (emit (Slept 10) (logger_debug (''Run #'' @ rid @ '' still running'') w))"

text \<open>
  \<open>execute_template\<close> waits for the process, reads both streams and logs them. It
  never reads the return code.
\<close>

definition execute_template :: "env \<Rightarrow> string \<Rightarrow> string \<Rightarrow> world \<Rightarrow> unit outcome" where
  "execute_template e rendered_template rid w =
     (let w1 = logger_info (''Executing template:'' @ [CHR 0x0A] @ rendered_template) w in
      case popen e rendered_template of
        Inl err \<Rightarrow> Raises err w1
      | Inr Hangs \<Rightarrow> Diverges w1
      | Inr (Exits n code out err) \<Rightarrow>
          Returns ()
            (logger_info (''stderr:'' @ [CHR 0x0A] @ err)
              (logger_info (''stdout:'' @ [CHR 0x0A] @ out) (poll_loop rid n w1))))"

section \<open>The flow and its run\<close>

text \<open>
  The flow that \<open>execute\<close> builds: the four tasks with the arguments bound to them.
\<close>

record Flow =
  flow_run_id :: string
  flow_template_text :: string
  flow_kwargs :: "(string \<times> string) list"

fun failure :: "'a outcome \<Rightarrow> exn option" where
  "failure (Raises err w) = Some err"
| "failure other = None"

definition upstream_failed :: exn where
  "upstream_failed = Exception ''TriggerFailed'' ''some of the upstream tasks failed''"

fun final_state :: "exn option list \<Rightarrow> State" where
  "final_state [] = Success"
| "final_state (None # rest) = final_state rest"
| "final_state (Some err # rest) = Failed (str_exn err)"

text \<open>
  The run of the flow by the workflow engine (an external library): each task runs
  once, a task after the task whose result it takes; an exception a task raises is
  caught by the engine and makes that task failed; a task whose upstream task failed is
  not run and counts as failed; the run is \<open>Failed\<close> when a task with no task after it
  (\<open>setup\<close>, \<open>update_run_status\<close>, \<open>execute_template\<close>) failed and \<open>Success\<close>
  otherwise. The argument is the executor the run is given; the tasks are the same
  under each.
\<close>

definition run_Flow :: "env \<Rightarrow> Flow \<Rightarrow> flow_run" where
  "run_Flow e fl executor w =
     (let o1 = setup_task e w;
          o2 = update_run_status (flow_run_id fl) (world_of o1);
          o3 = render_template e (flow_template_text fl) (flow_kwargs fl) (world_of o2);
          o4 = (case o3 of
                  Returns rendered w3 \<Rightarrow> execute_template e rendered (flow_run_id fl) w3
                | Raises err w3 \<Rightarrow> Raises upstream_failed w3
                | Diverges w3 \<Rightarrow> Diverges w3)
      in case o4 of
           Diverges w4 \<Rightarrow> Diverges w4
         | Returns u w4 \<Rightarrow> Returns (final_state [failure o1, failure o2, None]) w4
         | Raises err w4 \<Rightarrow> Returns (final_state [failure o1, failure o2, Some err]) w4)"

section \<open>Executor.execute\<close>

text \<open>
  The thread that \<open>execute\<close> starts: its target is the handler of the Executor that
  \<open>execute\<close> was called on, applied to the flow and the run id.
\<close>

record Thread =
  th_self :: Executor
  th_flow :: Flow
  th_run_id :: string

text \<open>
  Inside the \<^verbatim>\<open>with Flow(...)\<close> block only the four decorated functions are tasks:
  calling them adds them to the flow. The other statements of the block are plain calls
  and run at once, in the caller's thread: the fetch of the Run, the read of the script
  object (an object that is absent raises, and so does one that is not UTF-8), the log of
  the model's configuration and the parsing of the parameters. (The client of the object
  store and the name of the bucket come from the environment of the process.) The call
  of \<open>render_template\<close> passes the template text by position, \<open>run_id\<close> and
  \<open>model_config\<close> by keyword and the parameters as further keywords: a parameter
  named like one of these three gives an argument two values, and the call raises
  TypeError. The function returns \<open>None\<close>; the model returns the thread it started.
\<close>

definition reserved_names :: "string list" where
  "reserved_names = [''template_text'', ''run_id'', ''model_config'']"

definition execute :: "env \<Rightarrow> Executor \<Rightarrow> string \<Rightarrow> world \<Rightarrow> Thread outcome" where
  "execute e self rid w =
     (case safe_object_get_Run rid w of
        (None, w1) \<Rightarrow>
          Raises (Exception ''AttributeError''
                    ''NoneType object has no attribute script'') w1
      | (Some run, w1) \<Rightarrow>
          (let w2 = emit (ObjectGet (minio_bucket e) (run_script_path run)) w1 in
           case map_of (minio_objects e) (run_script_path run) of
             None \<Rightarrow> Raises (Exception ''S3Error'' ''NoSuchKey'') w2
           | Some Undecodable \<Rightarrow>
               Raises (Exception ''UnicodeDecodeError'' ''invalid start byte'') w2
           | Some (Utf8 template_text) \<Rightarrow>
               (let w3 = logger_info (run_model_config run) w2 in
                case parse_params e (run_parameters_config run) of
                  Inl err \<Rightarrow> Raises err w3
                | Inr params \<Rightarrow>
                    (if list_ex (\<lambda>kv. fst kv \<in> set reserved_names) params
                     then Raises (Exception ''TypeError''
                            ''got multiple values for argument'') w3
                     else Returns
                            \<lparr>th_self = self,
                             th_flow =
                               \<lparr>flow_run_id = rid,
                                flow_template_text = template_text,
                                flow_kwargs =
                                  (''run_id'', rid) #
                                  (''model_config'',
                                     replicate 3 (CHR 0x22) @ run_model_config run @
                                     replicate 3 (CHR 0x22)) # params\<rparr>,
                             th_run_id = rid\<rparr>
                            (emit (ThreadStarted rid) w3)))))"

text \<open>The body of a started thread, run to its end.\<close>

definition run_Thread :: "env \<Rightarrow> Thread \<Rightarrow> world \<Rightarrow> unit outcome" where
  "run_Thread e th w =
     threaded_execution_handler (th_self th) (run_Flow e (th_flow th)) (th_run_id th) w"

text \<open>
  One dispatch from its call to the end of its pipeline: \<open>execute\<close>, then the thread
  it started.
\<close>

definition dispatch :: "env \<Rightarrow> Executor \<Rightarrow> string \<Rightarrow> world \<Rightarrow> unit outcome" where
  "dispatch e self rid w =
     (case execute e self rid w of
        Returns th w1 \<Rightarrow> run_Thread e th w1
      | Raises err w1 \<Rightarrow> Raises err w1
      | Diverges w1 \<Rightarrow> Diverges w1)"

section \<open>Coach: the supervisor\<close>

record Coach =
  co_scheduler :: "Scheduler option"
  co_executor :: "Executor option"

definition initialize_scheduler :: "env \<Rightarrow> Coach \<Rightarrow> world \<Rightarrow> Coach \<times> unit outcome" where
  "initialize_scheduler e self w =
     (let w1 = emit SchedulerNew (logger_info ''Starting Scheduler instance...'' w) in
      case scheduler_new e of
        Inl err \<Rightarrow> (self, Raises err w1)
      | Inr s \<Rightarrow>
          (self\<lparr>co_scheduler := Some s\<rparr>,
           Returns () (logger_info ''Scheduler instance started successfully!'' w1)))"

text \<open>
  \<open>_initialize_executor\<close> builds the Executor on \<open>self._scheduler\<close>, with the
  default \<open>local=False\<close>.
\<close>

definition initialize_executor :: "env \<Rightarrow> Coach \<Rightarrow> world \<Rightarrow> Coach \<times> unit outcome" where
  "initialize_executor e self w =
     (let w1 = logger_info ''Starting Executor instance...'' w in
      case (if co_scheduler self = None then initialize_scheduler e self w1
            else (self, Returns () w1)) of
        (self1, Raises err w2) \<Rightarrow> (self1, Raises err w2)
      | (self1, Diverges w2) \<Rightarrow> (self1, Diverges w2)
      | (self1, Returns u w2) \<Rightarrow>
          (case co_scheduler self1 of
             None \<Rightarrow>
               (self1, Raises (Exception ''AttributeError''
                                 ''NoneType object has no attribute address'') w2)
           | Some s \<Rightarrow>
               (self1\<lparr>co_executor := Some (Executor_init s False)\<rparr>,
                Returns () (logger_info ''Executor instance started successfully!''
                             (emit (ExecutorNew (address s)) w2)))))"

text \<open>
  The query of a poll cycle: the Runs whose Status row is named \<open>created\<close>, in the
  order of the table.
\<close>

definition new_runs :: "world \<Rightarrow> Run list" where
  "new_runs w =
     filter (\<lambda>r. list_ex (\<lambda>s. pk s = status_pk r \<and> status s = RUN_STATUS_CREATED) (statuses w))
       (runs w)"

text \<open>
  How a Run prints in a log line (the models module is not among the sources): by its id.
\<close>

definition str_Run :: "Run \<Rightarrow> string" where
  "str_Run r = run_id r"

text \<open>
  The \<^verbatim>\<open>for run in new_runs\<close> loop of \<open>_threaded_scheduler\<close>. It gives the
  Coach as the loop left it, the threads it started, and how it ended: an exception
  raised for one run ends the loop, and the runs after it are not reached.
\<close>

fun dispatch_runs ::
    "env \<Rightarrow> Coach \<Rightarrow> Run list \<Rightarrow> world \<Rightarrow> Coach \<times> Thread list \<times> unit outcome" where
  "dispatch_runs e self [] w = (self, [], Returns () w)"
| "dispatch_runs e self (run # rest) w =
     (let w1 = logger_info (''Sending new run ('' @ str_Run run @ '') to the executor'') w in
      case (if co_scheduler self = None then initialize_scheduler e self w1
            else (self, Returns () w1)) of
        (self1, Raises err w2) \<Rightarrow> (self1, [], Raises err w2)
      | (self1, Diverges w2) \<Rightarrow> (self1, [], Diverges w2)
      | (self1, Returns u w2) \<Rightarrow>
          (case (if co_executor self1 = None then initialize_executor e self1 w2
                 else (self1, Returns () w2)) of
             (self2, Raises err w3) \<Rightarrow> (self2, [], Raises err w3)
           | (self2, Diverges w3) \<Rightarrow> (self2, [], Diverges w3)
           | (self2, Returns u' w3) \<Rightarrow>
               (case co_executor self2 of
                  None \<Rightarrow>
                    (self2, [], Raises (Exception ''AttributeError''
                                          ''NoneType object has no attribute execute'') w3)
                | Some ex \<Rightarrow>
                    (case execute e ex (run_id run) w3 of
                       Raises err w4 \<Rightarrow> (self2, [], Raises err w4)
                     | Diverges w4 \<Rightarrow> (self2, [], Diverges w4)
                     | Returns th w4 \<Rightarrow>
                         (case dispatch_runs e self2 rest w4 of
                            (self3, ths, out) \<Rightarrow> (self3, th # ths, out))))))"

text \<open>The \<^verbatim>\<open>try\<close> block of one cycle: the query, then the loop over its result.\<close>

definition poll_body :: "env \<Rightarrow> Coach \<Rightarrow> world \<Rightarrow> Coach \<times> Thread list \<times> unit outcome" where
  "poll_body e self w =
     (let w1 = emit (RunFilter RUN_STATUS_CREATED) w in
      case query_error e of
        Some err \<Rightarrow> (self, [], Raises err w1)
      | None \<Rightarrow> dispatch_runs e self (new_runs w) w1)"

text \<open>Decimal digits of a number, as an f-string prints it.\<close>

fun str_nat :: "nat \<Rightarrow> string" where
  "str_nat n =
     (if n < 10 then [char_of (48 + n)] else str_nat (n div 10) @ [char_of (48 + n mod 10)])"

declare str_nat.simps [simp del]

text \<open>
  \<^verbatim>\<open>except Exception as e\<close>: an instance of \<open>Exception\<close> is logged and the cycle
  goes on; any other exception passes through.
\<close>

fun except_Exception :: "unit outcome \<Rightarrow> unit outcome" where
  "except_Exception (Raises err w) =
     (if is_Exception err
      then Returns () (logger_error (''Error in scheduler: '' @ str_exn err) w)
      else Raises err w)"
| "except_Exception other = other"

text \<open>
  \<^verbatim>\<open>finally\<close>: the log line and the sleep of \<open>SCHEDULER_SLEEP_TIME\<close> seconds
  (a constant of the constants module, here the parameter \<open>T\<close>) run however the
  \<^verbatim>\<open>try\<close> statement ended.
\<close>

fun finally_sleep :: "nat \<Rightarrow> unit outcome \<Rightarrow> unit outcome" where
  "finally_sleep T (Returns u w) =
     Returns u (emit (Slept T)
       (logger_info (''Scheduler sleeping for '' @ str_nat T @ '' seconds'') w))"
| "finally_sleep T (Raises err w) =
     Raises err (emit (Slept T)
       (logger_info (''Scheduler sleeping for '' @ str_nat T @ '' seconds'') w))"
| "finally_sleep T (Diverges w) = Diverges w"

definition poll_cycle ::
    "nat \<Rightarrow> env \<Rightarrow> Coach \<Rightarrow> world \<Rightarrow> Coach \<times> Thread list \<times> unit outcome" where
  "poll_cycle T e self w =
     (case poll_body e self w of
        (self1, ths, out) \<Rightarrow> (self1, ths, finally_sleep T (except_Exception out)))"

text \<open>
  The \<^verbatim>\<open>while True\<close> loop of \<open>_threaded_scheduler\<close>, over its first cycles. Each
  cycle comes with the outside as it is then and with what the other threads do to the
  world while the loop sleeps. After the cycles given the loop is still \<open>Looping\<close>,
  unless an exception left it (\<open>Stopped\<close>) or a cycle never returned (\<open>Stuck\<close>).
\<close>

datatype loop = Looping Coach "Thread list" world | Stopped exn world | Stuck world

fun threaded_scheduler ::
    "nat \<Rightarrow> (env \<times> (world \<Rightarrow> world)) list \<Rightarrow> Coach \<Rightarrow> world \<Rightarrow> loop" where
  "threaded_scheduler T [] self w = Looping self [] w"
| "threaded_scheduler T ((e, others) # rest) self w =
     (case poll_cycle T e self w of
        (self1, ths, Raises err w1) \<Rightarrow> Stopped err w1
      | (self1, ths, Diverges w1) \<Rightarrow> Stuck w1
      | (self1, ths, Returns u w1) \<Rightarrow>
          (case threaded_scheduler T rest self1 (others w1) of
             Looping self2 ths' w2 \<Rightarrow> Looping self2 (ths @ ths') w2
           | Stopped err w2 \<Rightarrow> Stopped err w2
           | Stuck w2 \<Rightarrow> Stuck w2))"

section \<open>The command line: submit\<close>

text \<open>
  What \<open>submit\<close> finds on the machine: whether the configuration file exists, and
  the paths that exist.
\<close>

record cli_env =
  config_exists :: bool
  files :: "string list"

definition check_config :: "cli_env \<Rightarrow> world \<Rightarrow> bool \<times> world" where
  "check_config c w =
     (if \<not> config_exists c
      then (False, emit (Echoed ''No config file found. Please run `coach init` to create one.'') w)
      else (True, w))"

text \<open>
  The names bound in the module of the command line once it is loaded: its four
  imports (\<open>yaml\<close>, \<open>Path\<close>, \<open>typer\<close>, \<open>constants\<close>), \<open>app\<close> and its
  functions. A name a function reads that is neither among them nor a builtin raises
  NameError.
\<close>

definition cli_globals :: "string list" where
  "cli_globals =
     [''yaml'', ''Path'', ''typer'', ''constants'', ''app'', ''check_config'', ''init'',
      ''daemon'', ''submit'', ''list'', ''show'']"

definition load_global :: "string \<Rightarrow> exn + unit" where
  "load_global name =
     (if name \<in> set cli_globals then Inr ()
      else Inl (Exception ''NameError'' (''name '' @ name @ '' is not defined'')))"

text \<open>
  \<open>submit\<close>: after the four checks the function reads \<open>json.load\<close>. Past that
  point it builds a Coach, whose constructor logs a line, and reads its attribute
  \<open>submit_job\<close>; the class Coach defines no such attribute, so this raises
  AttributeError.
\<close>

definition submit :: "cli_env \<Rightarrow> string \<Rightarrow> string \<Rightarrow> string \<Rightarrow> world \<Rightarrow> unit outcome" where
  "submit c python_script job_config model_config w =
     (case check_config c w of
        (False, w1) \<Rightarrow> Returns () w1
      | (True, w1) \<Rightarrow>
          (if python_script \<notin> set (files c)
           then Returns () (emit (Echoed ''Python script does not exist.'') w1)
           else if job_config \<notin> set (files c)
           then Returns () (emit (Echoed ''Job config does not exist.'') w1)
           else if model_config \<notin> set (files c)
           then Returns () (emit (Echoed ''Model config does not exist.'') w1)
           else (case load_global ''json'' of
                   Inl err \<Rightarrow> Raises err w1
                 | Inr u \<Rightarrow>
                     Raises (Exception ''AttributeError''
                               ''Coach object has no attribute submit_job'')
                       (logger_info ''Coach instance initializing...'' w1))))"

section \<open>A task that raises\<close>

text \<open>
  A task of the flow that works on the script raises: \<open>render_template\<close> (the
  template engine rejects the template), or \<open>execute_template\<close> (the script cannot
  be started).
\<close>

definition task_raises :: "env \<Rightarrow> Flow \<Rightarrow> bool" where
  "task_raises e fl =
     (case jinja_render e (flow_template_text fl) (flow_kwargs fl) of
        Inl err \<Rightarrow> True
      | Inr rendered \<Rightarrow> (case popen e rendered of Inl err \<Rightarrow> True | Inr p \<Rightarrow> False))"

section \<open>Runs that can be dispatched\<close>

text \<open>Whether a call returned.\<close>

fun returns :: "'a outcome \<Rightarrow> bool" where
  "returns (Returns x w) = True"
| "returns (Raises err w) = False"
| "returns (Diverges w) = False"

text \<open>
  What ensuring the two singletons gives, in the claim's words: the Scheduler that the
  Coach has, or else one newly built; and with it the Executor that the Coach has, or
  else one built on that Scheduler. There is none when the Coach has no Scheduler and
  none can be built.
\<close>

definition ensured_singletons :: "env \<Rightarrow> Coach \<Rightarrow> (Scheduler \<times> Executor) option" where
  "ensured_singletons e self =
     (case (case co_scheduler self of
              Some s \<Rightarrow> Some s
            | None \<Rightarrow> (case scheduler_new e of Inl err \<Rightarrow> None | Inr s \<Rightarrow> Some s)) of
        None \<Rightarrow> None
      | Some s \<Rightarrow>
          Some (s, case co_executor self of Some ex \<Rightarrow> ex | None \<Rightarrow> Executor_init s False))"

text \<open>
  The Runs that the loop of a cycle can dispatch: the singletons exist or can be
  created, and \<open>execute\<close>, called on that Executor for the Run, returns.
\<close>

definition dispatchable :: "env \<Rightarrow> Coach \<Rightarrow> world \<Rightarrow> Run \<Rightarrow> bool" where
  "dispatchable e self w r =
     (case ensured_singletons e self of
        None \<Rightarrow> False
      | Some (s, ex) \<Rightarrow> returns (execute e ex (run_id r) w))"

text \<open>
  The events of a trace that are the construction of a singleton, the fetch of a Run
  (the first step of \<open>execute\<close>) or the start of a thread.
\<close>

fun calls :: "event list \<Rightarrow> event list" where
  "calls [] = []"
| "calls (SchedulerNew # evs) = SchedulerNew # calls evs"
| "calls (ExecutorNew a # evs) = ExecutorNew a # calls evs"
| "calls (RunGet r # evs) = RunGet r # calls evs"
| "calls (ThreadStarted r # evs) = ThreadStarted r # calls evs"
| "calls (ev # evs) = calls evs"

text \<open>
  The calls of \<open>execute\<close> that the claim describes, as such events: for each Run in
  order the fetch of the Run and the start of its thread, up to the first Run that
  cannot be dispatched; for that one the fetch alone, and nothing after it.
\<close>

fun dispatch_calls :: "(Run \<Rightarrow> bool) \<Rightarrow> Run list \<Rightarrow> event list" where
  "dispatch_calls ok [] = []"
| "dispatch_calls ok (r # rs) =
     (if ok r then RunGet (run_id r) # ThreadStarted (run_id r) # dispatch_calls ok rs
      else [RunGet (run_id r)])"

section \<open>Errors of the outside\<close>

text \<open>
  The outside raises only instances of \<open>Exception\<close>: the errors of the query, of the
  construction of the Scheduler and of the parsing of parameters.
\<close>

definition raises_Exceptions :: "env \<Rightarrow> bool" where
  "raises_Exceptions e \<longleftrightarrow>
     (\<forall>err. query_error e = Some err \<longrightarrow> is_Exception err) \<and>
     (\<forall>err. scheduler_new e = Inl err \<longrightarrow> is_Exception err) \<and>
     (\<forall>cfg err. parse_params e cfg = Inl err \<longrightarrow> is_Exception err)"

text \<open>An outcome that a handler of \<open>Exception\<close> copes with: a return, or such an error.\<close>

fun benign :: "'a outcome \<Rightarrow> bool" where
  "benign (Returns x w) = True"
| "benign (Raises err w) = is_Exception err"
| "benign (Diverges w) = False"

section \<open>Steps that save no Run\<close>

text \<open>
  A step is quiet when it leaves both tables as they are and adds to the trace only
  events that save no Run.
\<close>

definition quiet :: "world \<Rightarrow> world \<Rightarrow> bool" where
  "quiet w w' \<longleftrightarrow>
     statuses w' = statuses w \<and> runs w' = runs w \<and>
     (\<exists>evs. trace w' = trace w @ evs \<and> (\<forall>r. status_writes r evs = []))"

text \<open>
  A step makes the calls \<open>cs\<close> when it leaves both tables as they are and the calls
  among the events it adds to the trace are \<open>cs\<close>, in this order.
\<close>

definition makes_calls :: "world \<Rightarrow> world \<Rightarrow> event list \<Rightarrow> bool" where
  "makes_calls w w' cs \<longleftrightarrow>
     statuses w' = statuses w \<and> runs w' = runs w \<and>
     (\<exists>evs. trace w' = trace w @ evs \<and> calls evs = cs)"

section \<open>A sample installation\<close>

text \<open>
  Two submitted Runs, both \<open>created\<close>: the script of the first is in the bucket, the
  script of the second is not. The trace holds the two saves of the submissions.
\<close>

definition sample_world :: world where
  "sample_world =
     \<lparr>statuses = [\<lparr>pk = 1, status = ''created''\<rparr>],
      runs = [\<lparr>run_id = ''r1'', run_script_path = ''train.py'', run_model_config = ''{}'',
               run_parameters_config = ''{epochs: 3}'', status_pk = 1\<rparr>,
              \<lparr>run_id = ''r2'', run_script_path = ''gone.py'', run_model_config = ''{}'',
               run_parameters_config = ''{epochs: 3}'', status_pk = 1\<rparr>],
      trace = [RunSave ''r1'' ''created'', RunSave ''r2'' ''created'']\<rparr>"

definition sample_scheduler :: Scheduler where
  "sample_scheduler = \<lparr>address = ''tcp://10.0.0.1:8786''\<rparr>"

definition sample_executor :: Executor where
  "sample_executor = Executor_init sample_scheduler False"

text \<open>
  An outside where everything works: the script prints its parameter and the process
  exits with code 0 after one poll.
\<close>

definition sample_env :: env where
  "sample_env =
     \<lparr>scheduler_new = Inr sample_scheduler,
      query_error = None,
      minio_bucket = ''models'',
      minio_objects = [(''train.py'', Utf8 ''print({{ epochs }})'')],
      parse_params = (\<lambda>cfg. Inr [(''epochs'', ''3'')]),
      config_error = None,
      jinja_render = (\<lambda>text kwargs. Inr ''print(3)''),
      popen = (\<lambda>script. Inr (Exits (Suc 0) 0 ''3'' []))\<rparr>"

text \<open>The same outside, but the script exits with code 1 and a traceback.\<close>

definition crashing_env :: env where
  "crashing_env = sample_env\<lparr>popen := (\<lambda>script. Inr (Exits 0 1 [] ''Traceback''))\<rparr>"

text \<open>The same outside, but the template engine rejects the template.\<close>

definition unrenderable_env :: env where
  "unrenderable_env =
     sample_env\<lparr>jinja_render :=
       (\<lambda>text kwargs. Inl (Exception ''TemplateSyntaxError'' ''unexpected end of template''))\<rparr>"

text \<open>The same outside, but the database cannot be reached when the cycle queries it.\<close>

definition unreachable_env :: env where
  "unreachable_env =
     sample_env\<lparr>query_error := Some (Exception ''OperationalError'' ''connection refused'')\<rparr>"

text \<open>The sample world after a first get-or-create of \<open>queued\<close>.\<close>

definition queued_world :: world where
  "queued_world =
     sample_world\<lparr>statuses := [\<lparr>pk = 1, status = ''created''\<rparr>, \<lparr>pk = 2, status = ''queued''\<rparr>],
                  trace := trace sample_world @ [StatusGet ''queued'', StatusSave ''queued'']\<rparr>"

text \<open>Three backends, by the state their run reports.\<close>

definition cancelled_flow :: flow_run where
  "cancelled_flow executor w = Returns Cancelled w"

definition failed_flow :: flow_run where
  "failed_flow executor w = Returns (Failed ''boom'') w"

definition successful_flow :: flow_run where
  "successful_flow executor w = Returns Success w"

text \<open>The sample world with its two Runs in the other order.\<close>

definition blocked_world :: world where
  "blocked_world = sample_world\<lparr>runs := rev (runs sample_world)\<rparr>"

text \<open>
  Three cycles: in the first and the third the database cannot be reached, in the second
  it can. The other threads do nothing meanwhile.
\<close>

definition sample_cycles :: "(env \<times> (world \<Rightarrow> world)) list" where
  "sample_cycles = [(unreachable_env, \<lambda>w. w), (sample_env, \<lambda>w. w), (unreachable_env, \<lambda>w. w)]"

text \<open>A machine with its configuration file and the three files of a submission.\<close>

definition sample_cli :: cli_env where
  "sample_cli = \<lparr>config_exists = True, files = [''train.py'', ''job.json'', ''model.json'']\<rparr>"

text \<open>A Coach that holds a Scheduler and an Executor built for local runs.\<close>

definition local_coach :: Coach where
  "local_coach =
     \<lparr>co_scheduler = Some sample_scheduler,
      co_executor = Some (Executor_init sample_scheduler True)\<rparr>"

definition sample_coach :: Coach where
  "sample_coach = \<lparr>co_scheduler = None, co_executor = None\<rparr>"

section \<open>Basic facts about the world\<close>

lemma emit_simps:
  "statuses (emit ev w) = statuses w"
  "runs (emit ev w) = runs w"
  "trace (emit ev w) = trace w @ [ev]"
  by (simp_all add: emit_def)

lemma logger_simps:
  "statuses (logger_info m w) = statuses w"
  "runs (logger_info m w) = runs w"
  "trace (logger_info m w) = trace w @ [Logged INFO m]"
  "statuses (logger_error m w) = statuses w"
  "runs (logger_error m w) = runs w"
  "trace (logger_error m w) = trace w @ [Logged ERROR m]"
  "statuses (logger_debug m w) = statuses w"
  "runs (logger_debug m w) = runs w"
  "trace (logger_debug m w) = trace w @ [Logged DEBUG m]"
  by (simp_all add: logger_info_def logger_error_def logger_debug_def emit_simps)

lemma find_append_new:
  "find P xs = None \<Longrightarrow> P x \<Longrightarrow> find P (xs @ [x]) = Some x"
  by (induction xs) (auto split: if_splits)

lemma find_None_filter: "find P xs = None \<Longrightarrow> filter P xs = []"
  by (induction xs) (auto split: if_splits)

lemma find_Some_filter: "find P xs = Some x \<Longrightarrow> filter P xs \<noteq> []"
  by (induction xs) (auto split: if_splits)

section \<open>Get-or-create of a Status\<close>

lemma goc_found:
  "find (\<lambda>s. status s = name) (statuses w) = Some s \<Longrightarrow>
   get_or_create_status name w = (s, emit (StatusGet name) w)"
  by (simp add: get_or_create_status_def safe_object_get_Status_def)

lemma goc_new:
  "find (\<lambda>s. status s = name) (statuses w) = None \<Longrightarrow>
   get_or_create_status name w =
     (\<lparr>pk = fresh_pk (statuses w), status = name\<rparr>,
      emit (StatusSave name)
        (emit (StatusGet name) w
           \<lparr>statuses := statuses w @ [\<lparr>pk = fresh_pk (statuses w), status = name\<rparr>]\<rparr>))"
  by (simp add: get_or_create_status_def safe_object_get_Status_def Status_save_def
      Let_def emit_simps)

lemma goc_finds:
  assumes "get_or_create_status name w = (s, w1)"
  shows "find (\<lambda>s. status s = name) (statuses w1) = Some s"
proof (cases "find (\<lambda>s. status s = name) (statuses w)")
  case None
  with goc_new[OF None] assms show ?thesis
    by (auto simp: emit_simps find_append_new[OF None])
next
  case (Some a)
  with goc_found[OF Some] assms show ?thesis
    by (auto simp: emit_simps)
qed

text \<open>
  C8. Getting or creating a Status by name twice in a row gives the same row both
  times (same key, same name); the second call leaves the table as the first call left
  it; after the first call the table holds one row of that name if it held none, and as
  many as before otherwise; and a table whose names were all different stays so.
\<close>

theorem get_or_create_idempotent:
  assumes "get_or_create_status name w = (s1, w1)"
      and "get_or_create_status name w1 = (s2, w2)"
  shows "s1 = s2 \<and> statuses w2 = statuses w1 \<and>
         length (filter (\<lambda>s. status s = name) (statuses w1)) =
           max 1 (length (filter (\<lambda>s. status s = name) (statuses w))) \<and>
         (distinct (map status (statuses w)) \<longrightarrow> distinct (map status (statuses w2)))"
proof -
  have f1: "find (\<lambda>s. status s = name) (statuses w1) = Some s1"
    using assms(1) by (rule goc_finds)
  from goc_found[OF f1] assms(2) have eq: "s2 = s1" "w2 = emit (StatusGet name) w1"
    by simp_all
  have cnt: "length (filter (\<lambda>s. status s = name) (statuses w1)) =
           max 1 (length (filter (\<lambda>s. status s = name) (statuses w)))"
  proof (cases "find (\<lambda>s. status s = name) (statuses w)")
    case None
    with goc_new[OF None] assms(1) show ?thesis
      by (auto simp: emit_simps find_None_filter)
  next
    case (Some a)
    from find_Some_filter[OF Some]
    have "length (filter (\<lambda>s. status s = name) (statuses w)) \<noteq> 0"
      by simp
    with goc_found[OF Some] assms(1) show ?thesis
      by (cases "filter (\<lambda>s. status s = name) (statuses w)") (auto simp: emit_simps)
  qed
  have dist: "distinct (map status (statuses w)) \<longrightarrow> distinct (map status (statuses w1))"
  proof (cases "find (\<lambda>s. status s = name) (statuses w)")
    case None
    then have "name \<notin> status ` set (statuses w)"
      by (auto simp: find_None_iff)
    with goc_new[OF None] assms(1) show ?thesis
      by (auto simp: emit_simps)
  next
    case (Some a)
    with goc_found[OF Some] assms(1) show ?thesis
      by (auto simp: emit_simps)
  qed
  show ?thesis using eq cnt dist by (simp add: emit_simps)
qed

theorem get_or_create_idempotent_witness:
  "get_or_create_status ''queued'' sample_world = (\<lparr>pk = 2, status = ''queued''\<rparr>, queued_world) \<and>
   fst (get_or_create_status ''queued'' queued_world) = \<lparr>pk = 2, status = ''queued''\<rparr> \<and>
   statuses (snd (get_or_create_status ''queued'' queued_world)) = statuses queued_world"
proof -
  have h1: "get_or_create_status ''queued'' sample_world =
              (\<lparr>pk = 2, status = ''queued''\<rparr>, queued_world)"
    by (simp add: get_or_create_status_def safe_object_get_Status_def Status_save_def
        sample_world_def queued_world_def emit_def fresh_pk_def Let_def)
  obtain s2 w2 where h2: "get_or_create_status ''queued'' queued_world = (s2, w2)"
    by (cases "get_or_create_status ''queued'' queued_world")
  from get_or_create_idempotent[OF h1 h2] h1 h2 show ?thesis
    by simp
qed

section \<open>Facts about a status transition\<close>

lemma status_writes_append:
  "status_writes rid (xs @ ys) = status_writes rid xs @ status_writes rid ys"
  by (induction rid xs rule: status_writes.induct) auto

lemma fold_max_ge: "a \<le> fold max xs a \<and> (\<forall>x\<in>set xs. x \<le> fold max xs (a::nat))"
proof (induction xs arbitrary: a)
  case Nil
  show ?case by simp
next
  case (Cons y ys)
  from Cons[of "max y a"] show ?case by auto
qed

lemma fresh_pk_notin: "fresh_pk rows \<notin> pk ` set rows"
proof
  assume "fresh_pk rows \<in> pk ` set rows"
  then have "fresh_pk rows \<in> set (map pk rows)" by simp
  with fold_max_ge[of 0 "map pk rows"] have "fresh_pk rows \<le> fold max (map pk rows) 0"
    by blast
  then show False by (simp add: fresh_pk_def)
qed

lemma find_holds: "find P xs = Some x \<Longrightarrow> P x \<and> x \<in> set xs"
  by (induction xs) (auto split: if_splits)

lemma find_distinct_pk:
  "distinct (map pk xs) \<Longrightarrow> s \<in> set xs \<Longrightarrow> find (\<lambda>x. pk x = pk s) xs = Some s"
  by (induction xs) (auto simp: image_iff)

lemma find_map_update:
  "find (\<lambda>x. run_id x = rid) xs = Some r \<Longrightarrow> run_id r' = rid \<Longrightarrow>
   find (\<lambda>x. run_id x = rid) (map (\<lambda>x. if run_id x = rid then r' else x) xs) = Some r'"
  by (induction xs) (auto split: if_splits)

lemma goc_props:
  assumes "get_or_create_status name w = (s, w1)"
  shows "runs w1 = runs w"
    and "status s = name"
    and "s \<in> set (statuses w1)"
    and "status_writes rid (trace w1) = status_writes rid (trace w)"
    and "distinct (map pk (statuses w)) \<Longrightarrow> distinct (map pk (statuses w1))"
proof -
  have f: "find (\<lambda>s. status s = name) (statuses w1) = Some s"
    using assms by (rule goc_finds)
  from find_holds[OF f] show "status s = name" and "s \<in> set (statuses w1)" by simp_all
  show "runs w1 = runs w"
    using assms
    by (cases "find (\<lambda>s. status s = name) (statuses w)")
       (auto simp: goc_new goc_found emit_simps)
  show "status_writes rid (trace w1) = status_writes rid (trace w)"
    using assms
    by (cases "find (\<lambda>s. status s = name) (statuses w)")
       (auto simp: goc_new goc_found emit_simps status_writes_append)
  show "distinct (map pk (statuses w)) \<Longrightarrow> distinct (map pk (statuses w1))"
    using assms fresh_pk_notin[of "statuses w"]
    by (cases "find (\<lambda>s. status s = name) (statuses w)")
       (auto simp: goc_new goc_found emit_simps)
qed

lemma attach_status_props:
  assumes "find (\<lambda>r. run_id r = rid) (runs w) = Some r"
  shows "attach_status rid s w =
           Returns () (Run_save (r\<lparr>status_pk := pk s\<rparr>) (status s) (emit (RunGet rid) w))"
    and "find (\<lambda>r. run_id r = rid)
           (runs (Run_save (r\<lparr>status_pk := pk s\<rparr>) (status s) (emit (RunGet rid) w)))
         = Some (r\<lparr>status_pk := pk s\<rparr>)"
    and "statuses (Run_save (r\<lparr>status_pk := pk s\<rparr>) (status s) (emit (RunGet rid) w)) = statuses w"
    and "trace (Run_save (r\<lparr>status_pk := pk s\<rparr>) (status s) (emit (RunGet rid) w))
         = trace w @ [RunGet rid, RunSave rid (status s)]"
proof -
  from find_holds[OF assms] have rid: "run_id r = rid" and mem: "r \<in> set (runs w)" by simp_all
  show "attach_status rid s w =
           Returns () (Run_save (r\<lparr>status_pk := pk s\<rparr>) (status s) (emit (RunGet rid) w))"
    using assms by (simp add: attach_status_def safe_object_get_Run_def)
  have ex: "list_ex (\<lambda>x. run_id x = rid) (runs w)"
    using rid mem by (auto simp: list_ex_iff)
  show "find (\<lambda>r. run_id r = rid)
           (runs (Run_save (r\<lparr>status_pk := pk s\<rparr>) (status s) (emit (RunGet rid) w)))
         = Some (r\<lparr>status_pk := pk s\<rparr>)"
    using ex rid find_map_update[OF assms, of "r\<lparr>status_pk := pk s\<rparr>"]
    by (simp add: Run_save_def emit_simps)
  show "statuses (Run_save (r\<lparr>status_pk := pk s\<rparr>) (status s) (emit (RunGet rid) w)) = statuses w"
    by (simp add: Run_save_def emit_simps)
  show "trace (Run_save (r\<lparr>status_pk := pk s\<rparr>) (status s) (emit (RunGet rid) w))
         = trace w @ [RunGet rid, RunSave rid (status s)]"
    using rid by (simp add: Run_save_def emit_simps)
qed

lemma set_status_props:
  assumes "find (\<lambda>r. run_id r = rid) (runs w) = Some r"
  shows "\<exists>w' r'. set_status name rid w = Returns () w' \<and>
           find (\<lambda>r. run_id r = rid) (runs w') = Some r' \<and>
           status_writes rid (trace w') = status_writes rid (trace w) @ [name] \<and>
           (\<exists>evs. trace w' = trace w @ evs @ [RunSave rid name]) \<and>
           (distinct (map pk (statuses w)) \<longrightarrow>
              distinct (map pk (statuses w')) \<and> current_status rid w' = Some name)"
proof -
  obtain s w1 where g: "get_or_create_status name w = (s, w1)"
    by (cases "get_or_create_status name w")
  note gp = goc_props[OF g]
  have r1: "find (\<lambda>r. run_id r = rid) (runs w1) = Some r"
    using assms gp(1) by simp
  note ap = attach_status_props[OF r1, of s]
  let ?w' = "Run_save (r\<lparr>status_pk := pk s\<rparr>) (status s) (emit (RunGet rid) w1)"
  have a: "set_status name rid w = Returns () ?w'"
    using g ap(1) by (simp add: set_status_def)
  have b: "status_writes rid (trace ?w') = status_writes rid (trace w) @ [name]"
    using ap(4) gp(2) gp(4)[of rid] by (simp add: status_writes_append)
  have tr: "\<exists>evs. trace w1 = trace w @ evs"
    using g
    by (cases "find (\<lambda>s. status s = name) (statuses w)")
       (auto simp: goc_new goc_found emit_simps)
  then obtain evs where evs: "trace w1 = trace w @ evs" by blast
  have c: "\<exists>evs. trace ?w' = trace w @ evs @ [RunSave rid name]"
    using ap(4) gp(2) evs by (intro exI[of _ "evs @ [RunGet rid]"]) simp
  have d: "distinct (map pk (statuses w)) \<longrightarrow>
              distinct (map pk (statuses ?w')) \<and> current_status rid ?w' = Some name"
  proof
    assume dw: "distinct (map pk (statuses w))"
    from gp(5)[OF dw] have d1: "distinct (map pk (statuses w1))" .
    from find_distinct_pk[OF d1 gp(3)] have "find (\<lambda>x. pk x = pk s) (statuses w1) = Some s" .
    then show "distinct (map pk (statuses ?w')) \<and> current_status rid ?w' = Some name"
      using d1 ap(2) ap(3) gp(2) by (simp add: current_status_def)
  qed
  from a ap(2) b c d show ?thesis by blast
qed

section \<open>The handler\<close>

lemmas sample_defs =
  sample_world_def sample_env_def sample_executor_def sample_scheduler_def sample_coach_def
  Executor_init_def

lemmas model_defs =
  set_status_def get_or_create_status_def safe_object_get_Status_def Status_save_def
  attach_status_def safe_object_get_Run_def Run_save_def emit_def fresh_pk_def
  logger_info_def logger_error_def logger_debug_def current_status_def
  RUN_STATUS_CREATED_def RUN_STATUS_QUEUED_def RUN_STATUS_RUNNING_def
  RUN_STATUS_COMPLETED_def RUN_STATUS_FAILED_def

lemma current_status_frame:
  "statuses w' = statuses w \<Longrightarrow> runs w' = runs w \<Longrightarrow> current_status rid w' = current_status rid w"
  by (simp add: current_status_def split: option.splits)

text \<open>
  C10. When the run of the flow returns a state that is finished but neither failed nor
  successful, the handler returns with the world exactly as the flow left it: it saves
  no Status and logs nothing more, so the Run keeps the Status that was written last.
\<close>

theorem unclassified_finish_writes_nothing:
  assumes "set_status RUN_STATUS_QUEUED rid w = Returns () w2"
      and "flow (if ex_local self then None else Some (ex_executor self))
             (logger_info (if ex_local self then ''Running locally'' else ''Running on scheduler'') w2)
           = Returns state w3"
      and "is_finished state" and "\<not> is_failed state" and "\<not> is_successful state"
  shows "threaded_execution_handler self flow rid w = Returns () w3"
  using assms by (simp add: threaded_execution_handler_def split: if_splits)

theorem unclassified_finish_writes_nothing_witness:
  "threaded_execution_handler sample_executor cancelled_flow ''r1'' sample_world =
     Returns () (logger_info ''Running on scheduler''
                  (world_of (set_status RUN_STATUS_QUEUED ''r1'' sample_world))) \<and>
   current_status ''r1'' (world_of
     (threaded_execution_handler sample_executor cancelled_flow ''r1'' sample_world)) = Some ''queued''"
proof -
  have h1: "set_status RUN_STATUS_QUEUED ''r1'' sample_world =
              Returns () (world_of (set_status RUN_STATUS_QUEUED ''r1'' sample_world))"
    by (simp add: model_defs sample_defs Let_def)
  have h2: "cancelled_flow (if ex_local sample_executor then None else Some (ex_executor sample_executor))
             (logger_info (if ex_local sample_executor then ''Running locally'' else ''Running on scheduler'')
                (world_of (set_status RUN_STATUS_QUEUED ''r1'' sample_world)))
           = Returns Cancelled (logger_info ''Running on scheduler''
                  (world_of (set_status RUN_STATUS_QUEUED ''r1'' sample_world)))"
    by (simp add: cancelled_flow_def sample_defs)
  have h3: "current_status ''r1'' (logger_info ''Running on scheduler''
                  (world_of (set_status RUN_STATUS_QUEUED ''r1'' sample_world))) = Some ''queued''"
    by (simp add: model_defs sample_defs Let_def)
  from unclassified_finish_writes_nothing[where flow = cancelled_flow and self = sample_executor,
      OF h1 h2] h3 show ?thesis
    by simp
qed

text \<open>
  C6. For every flow the handler dispatches: when its run reports a failed state, the
  handler saves the Run with the Status \<open>failed\<close> and then logs, as an error, the
  result the state carries; when it reports a successful state, the handler saves the Run
  with the Status \<open>completed\<close> and then logs the success. (The Run is taken to exist
  still when the flow returns, and the keys of the Status rows to be unique.)
\<close>

theorem backend_state_sets_status:
  assumes "set_status RUN_STATUS_QUEUED rid w = Returns () w2"
      and "flow (if ex_local self then None else Some (ex_executor self))
             (logger_info (if ex_local self then ''Running locally'' else ''Running on scheduler'') w2)
           = Returns state w3"
      and "find (\<lambda>r. run_id r = rid) (runs w3) = Some r"
      and "distinct (map pk (statuses w3))"
  shows "(is_failed state \<longrightarrow>
           (\<exists>w'. threaded_execution_handler self flow rid w = Returns () w' \<and>
                 current_status rid w' = Some RUN_STATUS_FAILED \<and>
                 status_writes rid (trace w') = status_writes rid (trace w3) @ [RUN_STATUS_FAILED] \<and>
                 last (trace w') =
                   Logged ERROR (''Job '' @ rid @ '' failed with error: '' @ result state))) \<and>
         (is_successful state \<longrightarrow>
           (\<exists>w'. threaded_execution_handler self flow rid w = Returns () w' \<and>
                 current_status rid w' = Some RUN_STATUS_COMPLETED \<and>
                 status_writes rid (trace w') = status_writes rid (trace w3) @ [RUN_STATUS_COMPLETED] \<and>
                 last (trace w') = Logged INFO (''Job '' @ rid @ '' completed successfully'')))"
proof (intro conjI impI)
  assume f: "is_failed state"
  then have fin: "is_finished state" by (cases state) simp_all
  from set_status_props[OF assms(3), of RUN_STATUS_FAILED] assms(4)
  obtain w5 where s: "set_status RUN_STATUS_FAILED rid w3 = Returns () w5"
    and c: "current_status rid w5 = Some RUN_STATUS_FAILED"
    and t: "status_writes rid (trace w5) = status_writes rid (trace w3) @ [RUN_STATUS_FAILED]"
    by blast
  let ?w' = "logger_error (''Job '' @ rid @ '' failed with error: '' @ result state) w5"
  have "threaded_execution_handler self flow rid w = Returns () ?w'"
    using assms(1,2) f fin s by (simp add: threaded_execution_handler_def split: if_splits)
  moreover have "current_status rid ?w' = Some RUN_STATUS_FAILED"
    using c by (simp add: current_status_frame[of "logger_error m w5" w5 for m] current_status_frame[of "logger_info m w5" w5 for m] logger_simps)
  moreover have "status_writes rid (trace ?w') = status_writes rid (trace w3) @ [RUN_STATUS_FAILED]"
    using t by (simp add: logger_simps status_writes_append)
  moreover have "last (trace ?w') = Logged ERROR (''Job '' @ rid @ '' failed with error: '' @ result state)"
    by (simp add: logger_simps)
  ultimately show "\<exists>w'. threaded_execution_handler self flow rid w = Returns () w' \<and>
                 current_status rid w' = Some RUN_STATUS_FAILED \<and>
                 status_writes rid (trace w') = status_writes rid (trace w3) @ [RUN_STATUS_FAILED] \<and>
                 last (trace w') =
                   Logged ERROR (''Job '' @ rid @ '' failed with error: '' @ result state)"
    by blast
next
  assume f: "is_successful state"
  then have fin: "is_finished state" and nf: "\<not> is_failed state" by (cases state; simp)+
  from set_status_props[OF assms(3), of RUN_STATUS_COMPLETED] assms(4)
  obtain w5 where s: "set_status RUN_STATUS_COMPLETED rid w3 = Returns () w5"
    and c: "current_status rid w5 = Some RUN_STATUS_COMPLETED"
    and t: "status_writes rid (trace w5) = status_writes rid (trace w3) @ [RUN_STATUS_COMPLETED]"
    by blast
  let ?w' = "logger_info (''Job '' @ rid @ '' completed successfully'') w5"
  have "threaded_execution_handler self flow rid w = Returns () ?w'"
    using assms(1,2) f fin nf s by (simp add: threaded_execution_handler_def split: if_splits)
  moreover have "current_status rid ?w' = Some RUN_STATUS_COMPLETED"
    using c by (simp add: current_status_frame[of "logger_error m w5" w5 for m] current_status_frame[of "logger_info m w5" w5 for m] logger_simps)
  moreover have "status_writes rid (trace ?w') = status_writes rid (trace w3) @ [RUN_STATUS_COMPLETED]"
    using t by (simp add: logger_simps status_writes_append)
  moreover have "last (trace ?w') = Logged INFO (''Job '' @ rid @ '' completed successfully'')"
    by (simp add: logger_simps)
  ultimately show "\<exists>w'. threaded_execution_handler self flow rid w = Returns () w' \<and>
                 current_status rid w' = Some RUN_STATUS_COMPLETED \<and>
                 status_writes rid (trace w') = status_writes rid (trace w3) @ [RUN_STATUS_COMPLETED] \<and>
                 last (trace w') = Logged INFO (''Job '' @ rid @ '' completed successfully'')"
    by blast
qed

theorem backend_state_sets_status_witness:
  "current_status ''r1''
     (world_of (threaded_execution_handler sample_executor failed_flow ''r1'' sample_world))
     = Some ''failed'' \<and>
   last (trace (world_of (threaded_execution_handler sample_executor failed_flow ''r1'' sample_world)))
     = Logged ERROR ''Job r1 failed with error: boom'' \<and>
   current_status ''r1''
     (world_of (threaded_execution_handler sample_executor successful_flow ''r1'' sample_world))
     = Some ''completed'' \<and>
   last (trace (world_of (threaded_execution_handler sample_executor successful_flow ''r1'' sample_world)))
     = Logged INFO ''Job r1 completed successfully''"
proof -
  let ?w2 = "world_of (set_status RUN_STATUS_QUEUED ''r1'' sample_world)"
  let ?w3 = "logger_info ''Running on scheduler'' ?w2"
  have h1: "set_status RUN_STATUS_QUEUED ''r1'' sample_world = Returns () ?w2"
    by (simp add: model_defs sample_defs Let_def)
  have h2: "failed_flow (if ex_local sample_executor then None else Some (ex_executor sample_executor))
             (logger_info (if ex_local sample_executor then ''Running locally'' else ''Running on scheduler'') ?w2)
           = Returns (Failed ''boom'') ?w3"
    by (simp add: failed_flow_def sample_defs)
  have h2': "successful_flow (if ex_local sample_executor then None else Some (ex_executor sample_executor))
             (logger_info (if ex_local sample_executor then ''Running locally'' else ''Running on scheduler'') ?w2)
           = Returns Success ?w3"
    by (simp add: successful_flow_def sample_defs)
  have h3: "find (\<lambda>r. run_id r = ''r1'') (runs ?w3) =
              Some (the (find (\<lambda>r. run_id r = ''r1'') (runs ?w3)))"
    by (simp add: model_defs sample_defs Let_def)
  have h4: "distinct (map pk (statuses ?w3))"
    by (simp add: model_defs sample_defs Let_def)
  from backend_state_sets_status[where flow = failed_flow and self = sample_executor,
      OF h1 h2 h3 h4]
  have a: "\<exists>w'. threaded_execution_handler sample_executor failed_flow ''r1'' sample_world = Returns () w' \<and>
                 current_status ''r1'' w' = Some RUN_STATUS_FAILED \<and>
                 last (trace w') = Logged ERROR (''Job '' @ ''r1'' @ '' failed with error: '' @ ''boom'')"
    by auto
  from backend_state_sets_status[where flow = successful_flow and self = sample_executor,
      OF h1 h2' h3 h4]
  have b: "\<exists>w'. threaded_execution_handler sample_executor successful_flow ''r1'' sample_world = Returns () w' \<and>
                 current_status ''r1'' w' = Some RUN_STATUS_COMPLETED \<and>
                 last (trace w') = Logged INFO (''Job '' @ ''r1'' @ '' completed successfully'')"
    by auto
  from a b show ?thesis
    by (auto simp: RUN_STATUS_FAILED_def RUN_STATUS_COMPLETED_def)
qed

section \<open>The run of the flow\<close>

lemma quiet_refl: "quiet w w"
  by (simp add: quiet_def)

lemma quiet_trans: "quiet w w1 \<Longrightarrow> quiet w1 w2 \<Longrightarrow> quiet w w2"
  by (auto simp: quiet_def status_writes_append)

lemma quiet_log:
  "quiet w (logger_info m w)" "quiet w (logger_debug m w)" "quiet w (logger_error m w)"
  by (simp_all add: quiet_def logger_simps)

lemma quiet_emit_Slept: "quiet w (emit (Slept n) w)"
  by (simp add: quiet_def emit_simps)

lemma quiet_writes: "quiet w w' \<Longrightarrow> status_writes rid (trace w') = status_writes rid (trace w)"
  by (auto simp: quiet_def status_writes_append)

lemma quiet_trace: "quiet w w' \<Longrightarrow> \<exists>evs. trace w' = trace w @ evs"
  by (auto simp: quiet_def)

lemma quiet_tables: "quiet w w' \<Longrightarrow> statuses w' = statuses w \<and> runs w' = runs w"
  by (simp add: quiet_def)

lemma poll_loop_quiet: "quiet w (poll_loop rid n w)"
proof (induction n arbitrary: w)
  case 0
  show ?case by (simp add: quiet_refl)
next
  case (Suc n)
  have a: "quiet w (emit (Slept 10) (logger_debug (''Run #'' @ rid @ '' still running'') w))"
    using quiet_trans[OF quiet_log(2) quiet_emit_Slept] .
  from quiet_trans[OF a Suc] show ?case by simp
qed

lemma execute_template_eq:
  "execute_template e t rid w =
     (case popen e t of
        Inl err \<Rightarrow> Raises err (logger_info (''Executing template:'' @ [CHR 0x0A] @ t) w)
      | Inr Hangs \<Rightarrow> Diverges (logger_info (''Executing template:'' @ [CHR 0x0A] @ t) w)
      | Inr (Exits n code out err) \<Rightarrow>
          Returns ()
            (logger_info (''stderr:'' @ [CHR 0x0A] @ err)
              (logger_info (''stdout:'' @ [CHR 0x0A] @ out)
                 (poll_loop rid n (logger_info (''Executing template:'' @ [CHR 0x0A] @ t) w)))))"
  by (simp add: execute_template_def Let_def split: sum.splits process.splits)

lemma execute_template_quiet: "quiet w (world_of (execute_template e t rid w))"
proof -
  let ?w1 = "logger_info (''Executing template:'' @ [CHR 0x0A] @ t) w"
  have q1: "quiet w ?w1" by (rule quiet_log)
  show ?thesis
  proof (cases "popen e t")
    case (Inl err)
    then show ?thesis using q1 by (simp add: execute_template_eq)
  next
    case (Inr p)
    show ?thesis
    proof (cases p)
      case Hangs
      with Inr show ?thesis using q1 by (simp add: execute_template_eq)
    next
      case (Exits n code out err)
      have "quiet w (logger_info (''stderr:'' @ [CHR 0x0A] @ err)
              (logger_info (''stdout:'' @ [CHR 0x0A] @ out) (poll_loop rid n ?w1)))"
        by (rule quiet_trans[OF quiet_trans[OF quiet_trans[OF q1 poll_loop_quiet] quiet_log(1)] quiet_log(1)])
      with Inr Exits show ?thesis by (simp add: execute_template_eq)
    qed
  qed
qed

lemma final_state_cases:
  "final_state [a, None, None] = (case a of None \<Rightarrow> Success | Some err \<Rightarrow> Failed (str_exn err))"
  "is_failed (final_state [a, None, Some err])"
  "is_finished (final_state [a, b, c])"
  by (cases a; cases b; cases c; simp)+

lemma run_Flow_eq:
  assumes "set_status RUN_STATUS_RUNNING (flow_run_id fl) w = Returns () w2"
  shows "run_Flow e fl x w =
     (case jinja_render e (flow_template_text fl) (flow_kwargs fl) of
        Inl err \<Rightarrow> Returns (final_state [config_error e, None, Some upstream_failed]) w2
      | Inr text \<Rightarrow>
         (case execute_template e text (flow_run_id fl) w2 of
            Diverges w4 \<Rightarrow> Diverges w4
          | Returns u w4 \<Rightarrow> Returns (final_state [config_error e, None, None]) w4
          | Raises err w4 \<Rightarrow> Returns (final_state [config_error e, None, Some err]) w4))"
proof -
  have s: "world_of (setup_task e w) = w" "failure (setup_task e w) = config_error e"
    by (simp_all add: setup_task_def split: option.splits)
  show ?thesis
    using assms
    by (simp add: run_Flow_def Let_def s update_run_status_def render_template_def
        split: sum.splits outcome.splits)
qed

section \<open>One dispatch\<close>

lemma execute_quiet: "quiet w (world_of (execute e self rid w))"
proof -
  have q1: "quiet w (emit (RunGet rid) w)" by (simp add: quiet_def emit_simps)
  have q2: "\<And>b p. quiet w (emit (ObjectGet b p) (emit (RunGet rid) w))"
    by (simp add: quiet_def emit_simps)
  have q3: "\<And>b p m. quiet w (logger_info m (emit (ObjectGet b p) (emit (RunGet rid) w)))"
    by (simp add: quiet_def emit_simps logger_simps)
  have q4: "\<And>b p m. quiet w (emit (ThreadStarted rid)
              (logger_info m (emit (ObjectGet b p) (emit (RunGet rid) w))))"
    by (simp add: quiet_def emit_simps logger_simps)
  show ?thesis
    using q1 q2 q3 q4
    by (simp add: execute_def safe_object_get_Run_def Let_def
        split: option.splits sum.splits body.splits)
qed

lemma execute_Returns:
  assumes "execute e self rid w = Returns th w1"
  shows "\<exists>run. find (\<lambda>r. run_id r = rid) (runs w) = Some run \<and>
           th_self th = self \<and> th_run_id th = rid \<and> flow_run_id (th_flow th) = rid \<and>
           map_of (minio_objects e) (run_script_path run) =
             Some (Utf8 (flow_template_text (th_flow th))) \<and>
           trace w1 = trace w @ [RunGet rid, ObjectGet (minio_bucket e) (run_script_path run),
                                 Logged INFO (run_model_config run), ThreadStarted rid]"
  using assms
  by (auto simp: execute_def safe_object_get_Run_def Let_def emit_simps logger_simps
      split: option.splits sum.splits if_splits body.splits)

lemma execute_missing_object:
  assumes "find (\<lambda>r. run_id r = rid) (runs w) = Some run"
      and "map_of (minio_objects e) (run_script_path run) = None"
  shows "execute e self rid w =
           Raises (Exception ''S3Error'' ''NoSuchKey'')
             (emit (ObjectGet (minio_bucket e) (run_script_path run)) (emit (RunGet rid) w))"
  using assms by (simp add: execute_def safe_object_get_Run_def Let_def)

text \<open>The handler on the training flow, from a world in which the Run exists.\<close>

lemma handler_on_Flow:
  assumes run: "find (\<lambda>r. run_id r = rid) (runs w) = Some r"
      and fl: "flow_run_id fl = rid"
  shows "\<exists>w2 w3 w4.
           set_status RUN_STATUS_QUEUED rid w = Returns () w2 \<and>
           set_status RUN_STATUS_RUNNING rid
             (logger_info (if ex_local self then ''Running locally'' else ''Running on scheduler'') w2)
             = Returns () w3 \<and>
           world_of (run_Flow e fl (if ex_local self then None else Some (ex_executor self))
             (logger_info (if ex_local self then ''Running locally'' else ''Running on scheduler'') w2)) = w4 \<and>
           quiet w3 w4 \<and>
           (\<exists>r'. find (\<lambda>r. run_id r = rid) (runs w4) = Some r') \<and>
           status_writes rid (trace w4) =
             status_writes rid (trace w) @ [RUN_STATUS_QUEUED, RUN_STATUS_RUNNING] \<and>
           (\<exists>evs. trace w4 = trace w @ evs) \<and>
           (distinct (map pk (statuses w)) \<longrightarrow> distinct (map pk (statuses w4)))"
proof -
  let ?m = "if ex_local self then ''Running locally'' else ''Running on scheduler''"
  let ?x = "if ex_local self then None else Some (ex_executor self)"
  from set_status_props[OF run, of RUN_STATUS_QUEUED]
  obtain w2 r2 where q: "set_status RUN_STATUS_QUEUED rid w = Returns () w2"
    and r2: "find (\<lambda>r. run_id r = rid) (runs w2) = Some r2"
    and wq: "status_writes rid (trace w2) = status_writes rid (trace w) @ [RUN_STATUS_QUEUED]"
    and tq: "\<exists>evs. trace w2 = trace w @ evs @ [RunSave rid RUN_STATUS_QUEUED]"
    and dq: "distinct (map pk (statuses w)) \<longrightarrow> distinct (map pk (statuses w2))"
    by blast
  let ?w2' = "logger_info ?m w2"
  have r2': "find (\<lambda>r. run_id r = rid) (runs ?w2') = Some r2"
    using r2 by (simp add: logger_simps)
  from set_status_props[OF r2', of RUN_STATUS_RUNNING]
  obtain w3 r3 where rn: "set_status RUN_STATUS_RUNNING rid ?w2' = Returns () w3"
    and r3: "find (\<lambda>r. run_id r = rid) (runs w3) = Some r3"
    and wr: "status_writes rid (trace w3) = status_writes rid (trace ?w2') @ [RUN_STATUS_RUNNING]"
    and tr: "\<exists>evs. trace w3 = trace ?w2' @ evs @ [RunSave rid RUN_STATUS_RUNNING]"
    and dr: "distinct (map pk (statuses ?w2')) \<longrightarrow> distinct (map pk (statuses w3))"
    by blast
  let ?w4 = "world_of (run_Flow e fl ?x ?w2')"
  have rn': "set_status RUN_STATUS_RUNNING (flow_run_id fl) ?w2' = Returns () w3"
    using rn fl by simp
  have qt: "quiet w3 ?w4"
  proof (cases "jinja_render e (flow_template_text fl) (flow_kwargs fl)")
    case (Inl err)
    then show ?thesis by (simp add: run_Flow_eq[OF rn'] quiet_refl)
  next
    case (Inr rendered)
    have "?w4 = world_of (execute_template e rendered (flow_run_id fl) w3)"
      using Inr by (simp add: run_Flow_eq[OF rn'] split: outcome.splits)
    then show ?thesis using execute_template_quiet[of w3 e rendered "flow_run_id fl"] by simp
  qed
  have a: "\<exists>r'. find (\<lambda>r. run_id r = rid) (runs ?w4) = Some r'"
    using r3 quiet_tables[OF qt] by simp
  have b: "status_writes rid (trace ?w4) =
             status_writes rid (trace w) @ [RUN_STATUS_QUEUED, RUN_STATUS_RUNNING]"
    using quiet_writes[OF qt, of rid] wr wq by (simp add: logger_simps status_writes_append)
  have c: "\<exists>evs. trace ?w4 = trace w @ evs"
    using quiet_trace[OF qt] tr tq by (auto simp: logger_simps)
  have d: "distinct (map pk (statuses w)) \<longrightarrow> distinct (map pk (statuses ?w4))"
    using dq dr quiet_tables[OF qt] by (simp add: logger_simps)
  from q rn qt a b c d show ?thesis by blast
qed


lemma handler_finish:
  assumes "set_status RUN_STATUS_QUEUED rid w = Returns () w2"
      and "flow (if ex_local self then None else Some (ex_executor self))
             (logger_info (if ex_local self then ''Running locally'' else ''Running on scheduler'') w2)
           = Returns state w3"
      and "find (\<lambda>r. run_id r = rid) (runs w3) = Some r"
  shows "is_failed state \<Longrightarrow>
           \<exists>w'. threaded_execution_handler self flow rid w = Returns () w' \<and>
                status_writes rid (trace w') = status_writes rid (trace w3) @ [RUN_STATUS_FAILED] \<and>
                (\<exists>evs. trace w' = trace w3 @ evs) \<and>
                (distinct (map pk (statuses w3)) \<longrightarrow> current_status rid w' = Some RUN_STATUS_FAILED)"
    and "is_successful state \<Longrightarrow>
           \<exists>w'. threaded_execution_handler self flow rid w = Returns () w' \<and>
                status_writes rid (trace w') = status_writes rid (trace w3) @ [RUN_STATUS_COMPLETED] \<and>
                (\<exists>evs. trace w' = trace w3 @ evs) \<and>
                (distinct (map pk (statuses w3)) \<longrightarrow> current_status rid w' = Some RUN_STATUS_COMPLETED)"
proof -
  assume f: "is_failed state"
  then have fin: "is_finished state" by (cases state) simp_all
  from set_status_props[OF assms(3), of RUN_STATUS_FAILED]
  obtain w5 where s: "set_status RUN_STATUS_FAILED rid w3 = Returns () w5"
    and c: "distinct (map pk (statuses w3)) \<longrightarrow> current_status rid w5 = Some RUN_STATUS_FAILED"
    and t: "status_writes rid (trace w5) = status_writes rid (trace w3) @ [RUN_STATUS_FAILED]"
    and e: "\<exists>evs. trace w5 = trace w3 @ evs @ [RunSave rid RUN_STATUS_FAILED]"
    by blast
  let ?w' = "logger_error (''Job '' @ rid @ '' failed with error: '' @ result state) w5"
  have "threaded_execution_handler self flow rid w = Returns () ?w'"
    using assms(1,2) f fin s by (simp add: threaded_execution_handler_def split: if_splits)
  moreover have "distinct (map pk (statuses w3)) \<longrightarrow> current_status rid ?w' = Some RUN_STATUS_FAILED"
    using c by (simp add: current_status_frame[of "logger_error m w5" w5 for m] logger_simps)
  moreover have "status_writes rid (trace ?w') = status_writes rid (trace w3) @ [RUN_STATUS_FAILED]"
    using t by (simp add: logger_simps status_writes_append)
  moreover have "\<exists>evs. trace ?w' = trace w3 @ evs"
    using e by (auto simp: logger_simps)
  ultimately show "\<exists>w'. threaded_execution_handler self flow rid w = Returns () w' \<and>
                status_writes rid (trace w') = status_writes rid (trace w3) @ [RUN_STATUS_FAILED] \<and>
                (\<exists>evs. trace w' = trace w3 @ evs) \<and>
                (distinct (map pk (statuses w3)) \<longrightarrow> current_status rid w' = Some RUN_STATUS_FAILED)"
    by blast
next
  assume f: "is_successful state"
  then have fin: "is_finished state" and nf: "\<not> is_failed state" by (cases state; simp)+
  from set_status_props[OF assms(3), of RUN_STATUS_COMPLETED]
  obtain w5 where s: "set_status RUN_STATUS_COMPLETED rid w3 = Returns () w5"
    and c: "distinct (map pk (statuses w3)) \<longrightarrow> current_status rid w5 = Some RUN_STATUS_COMPLETED"
    and t: "status_writes rid (trace w5) = status_writes rid (trace w3) @ [RUN_STATUS_COMPLETED]"
    and e: "\<exists>evs. trace w5 = trace w3 @ evs @ [RunSave rid RUN_STATUS_COMPLETED]"
    by blast
  let ?w' = "logger_info (''Job '' @ rid @ '' completed successfully'') w5"
  have "threaded_execution_handler self flow rid w = Returns () ?w'"
    using assms(1,2) f fin nf s by (simp add: threaded_execution_handler_def split: if_splits)
  moreover have "distinct (map pk (statuses w3)) \<longrightarrow> current_status rid ?w' = Some RUN_STATUS_COMPLETED"
    using c by (simp add: current_status_frame[of "logger_info m w5" w5 for m] logger_simps)
  moreover have "status_writes rid (trace ?w') = status_writes rid (trace w3) @ [RUN_STATUS_COMPLETED]"
    using t by (simp add: logger_simps status_writes_append)
  moreover have "\<exists>evs. trace ?w' = trace w3 @ evs"
    using e by (auto simp: logger_simps)
  ultimately show "\<exists>w'. threaded_execution_handler self flow rid w = Returns () w' \<and>
                status_writes rid (trace w') = status_writes rid (trace w3) @ [RUN_STATUS_COMPLETED] \<and>
                (\<exists>evs. trace w' = trace w3 @ evs) \<and>
                (distinct (map pk (statuses w3)) \<longrightarrow> current_status rid w' = Some RUN_STATUS_COMPLETED)"
    by blast
qed


lemma run_Flow_task_raises:
  assumes "set_status RUN_STATUS_RUNNING (flow_run_id fl) w = Returns () w2"
      and "task_raises e fl"
  shows "\<exists>st w4. run_Flow e fl x w = Returns st w4 \<and> is_failed st"
proof (cases "jinja_render e (flow_template_text fl) (flow_kwargs fl)")
  case (Inl err)
  then show ?thesis by (simp add: run_Flow_eq[OF assms(1)] final_state_cases)
next
  case (Inr rendered)
  with assms(2) obtain err where "popen e rendered = Inl err"
    by (auto simp: task_raises_def split: sum.splits)
  with Inr show ?thesis
    by (simp add: run_Flow_eq[OF assms(1)] execute_template_eq final_state_cases)
qed

lemma run_Flow_exits:
  assumes "set_status RUN_STATUS_RUNNING (flow_run_id fl) w = Returns () w2"
      and "config_error e = None"
      and "jinja_render e (flow_template_text fl) (flow_kwargs fl) = Inr rendered"
      and "popen e rendered = Inr (Exits n code out err)"
  shows "\<exists>w4. run_Flow e fl x w = Returns Success w4 \<and>
              Logged INFO (''stdout:'' @ [CHR 0x0A] @ out) \<in> set (trace w4) \<and>
              Logged INFO (''stderr:'' @ [CHR 0x0A] @ err) \<in> set (trace w4)"
  using assms(2,3,4)
  by (simp add: run_Flow_eq[OF assms(1)] execute_template_eq final_state_cases logger_simps)

text \<open>What a dispatch whose execute returned a thread amounts to.\<close>

lemma dispatch_started:
  assumes ex: "execute e self rid w = Returns th w1"
  shows "\<exists>run w2 w3 w4.
           find (\<lambda>r. run_id r = rid) (runs w) = Some run \<and>
           dispatch e self rid w =
             threaded_execution_handler self (run_Flow e (th_flow th)) rid w1 \<and>
           flow_run_id (th_flow th) = rid \<and>
           set_status RUN_STATUS_QUEUED rid w1 = Returns () w2 \<and>
           set_status RUN_STATUS_RUNNING (flow_run_id (th_flow th))
             (logger_info (if ex_local self then ''Running locally'' else ''Running on scheduler'') w2)
             = Returns () w3 \<and>
           world_of (run_Flow e (th_flow th) (if ex_local self then None else Some (ex_executor self))
             (logger_info (if ex_local self then ''Running locally'' else ''Running on scheduler'') w2)) = w4 \<and>
           (\<exists>r'. find (\<lambda>r. run_id r = rid) (runs w4) = Some r') \<and>
           status_writes rid (trace w4) =
             status_writes rid (trace w) @ [RUN_STATUS_QUEUED, RUN_STATUS_RUNNING] \<and>
           (\<exists>evs. trace w4 = trace w @ evs) \<and>
           (distinct (map pk (statuses w)) \<longrightarrow> distinct (map pk (statuses w4)))"
proof -
  from execute_Returns[OF ex] obtain run where
    run: "find (\<lambda>r. run_id r = rid) (runs w) = Some run"
    and ts: "th_self th = self"
    and th: "th_run_id th = rid" and fl: "flow_run_id (th_flow th) = rid"
    by blast
  have q: "quiet w w1" using execute_quiet[of w e self rid] ex by simp
  have run1: "find (\<lambda>r. run_id r = rid) (runs w1) = Some run"
    using run quiet_tables[OF q] by simp
  have d: "dispatch e self rid w = threaded_execution_handler self (run_Flow e (th_flow th)) rid w1"
    using ex th ts by (simp add: dispatch_def run_Thread_def)
  from handler_on_Flow[OF run1 fl, of self e]
  obtain w2 w3 w4 where
    a: "set_status RUN_STATUS_QUEUED rid w1 = Returns () w2"
    and b: "set_status RUN_STATUS_RUNNING rid
             (logger_info (if ex_local self then ''Running locally'' else ''Running on scheduler'') w2)
             = Returns () w3"
    and c: "world_of (run_Flow e (th_flow th) (if ex_local self then None else Some (ex_executor self))
             (logger_info (if ex_local self then ''Running locally'' else ''Running on scheduler'') w2)) = w4"
    and r4: "\<exists>r'. find (\<lambda>r. run_id r = rid) (runs w4) = Some r'"
    and wr: "status_writes rid (trace w4) =
             status_writes rid (trace w1) @ [RUN_STATUS_QUEUED, RUN_STATUS_RUNNING]"
    and tr: "\<exists>evs. trace w4 = trace w1 @ evs"
    and di: "distinct (map pk (statuses w1)) \<longrightarrow> distinct (map pk (statuses w4))"
    by blast
  have wr': "status_writes rid (trace w4) =
             status_writes rid (trace w) @ [RUN_STATUS_QUEUED, RUN_STATUS_RUNNING]"
    using wr quiet_writes[OF q, of rid] by simp
  have tr': "\<exists>evs. trace w4 = trace w @ evs"
    using tr quiet_trace[OF q] by auto
  have di': "distinct (map pk (statuses w)) \<longrightarrow> distinct (map pk (statuses w4))"
    using di quiet_tables[OF q] by simp
  from run d fl a b c r4 wr' tr' di' show ?thesis by (simp add: fl)
qed


lemmas run_defs =
  dispatch_def execute_def run_Thread_def threaded_execution_handler_def run_Flow_def
  setup_task_def update_run_status_def render_template_def execute_template_def
  upstream_failed_def reserved_names_def

lemmas coach_defs =
  poll_body_def poll_cycle_def new_runs_def initialize_scheduler_def initialize_executor_def
  str_Run_def



text \<open>
  Two dispatches of one Run. A Run stays \<open>created\<close> until the thread of its dispatch
  has saved \<open>queued\<close>; when the next cycle comes first, the Run is found again and
  dispatched again, and the two threads, run one after the other, save for it
  \<open>queued, running, completed\<close> twice.
\<close>

lemma same_run_dispatched_twice:
  "(case threaded_scheduler 5 [(sample_env, \<lambda>w. w), (sample_env, \<lambda>w. w)] sample_coach sample_world of
      Looping c ths w' \<Rightarrow>
        map th_run_id ths = [''r1'', ''r1''] \<and>
        status_writes ''r1''
          (trace (world_of (run_Thread sample_env (hd (tl ths))
             (world_of (run_Thread sample_env (hd ths) w'))))) =
          [''created'', ''queued'', ''running'', ''completed'', ''queued'', ''running'', ''completed'']
    | Stopped err w' \<Rightarrow> False
    | Stuck w' \<Rightarrow> False)"
  by (simp add: coach_defs run_defs model_defs sample_defs Let_def str_nat.simps)

section \<open>Failures of a pipeline\<close>

text \<open>
  C1 (as amended). For a Run that exists: when the script object is absent, the fetch
  fails inside \<open>execute\<close>, in the caller's thread and before any thread is started;
  the dispatch raises the error to its caller, saves nothing, and the Run keeps the Status
  it had. When \<open>execute\<close> has started the thread and a task of the flow raises
  (\<open>render_template\<close>, or \<open>execute_template\<close> on starting the script), the
  dispatch saves \<open>queued\<close>, \<open>running\<close> and \<open>failed\<close> in this order and
  leaves the Run \<open>failed\<close>.
\<close>

theorem pipeline_failure_status:
  assumes run: "find (\<lambda>r. run_id r = rid) (runs w) = Some run"
      and dist: "distinct (map pk (statuses w))"
  shows "(map_of (minio_objects e) (run_script_path run) = None \<longrightarrow>
            dispatch e self rid w =
              Raises (Exception ''S3Error'' ''NoSuchKey'')
                (emit (ObjectGet (minio_bucket e) (run_script_path run)) (emit (RunGet rid) w)) \<and>
            current_status rid (world_of (dispatch e self rid w)) = current_status rid w \<and>
            status_writes rid (trace (world_of (dispatch e self rid w))) =
              status_writes rid (trace w)) \<and>
         (\<forall>th w1. execute e self rid w = Returns th w1 \<and> task_raises e (th_flow th) \<longrightarrow>
            (\<exists>w'. dispatch e self rid w = Returns () w' \<and>
                  current_status rid w' = Some RUN_STATUS_FAILED \<and>
                  status_writes rid (trace w') =
                    status_writes rid (trace w) @
                      [RUN_STATUS_QUEUED, RUN_STATUS_RUNNING, RUN_STATUS_FAILED]))"
proof (intro conjI impI allI)
  assume miss: "map_of (minio_objects e) (run_script_path run) = None"
  let ?w' = "emit (ObjectGet (minio_bucket e) (run_script_path run)) (emit (RunGet rid) w)"
  from execute_missing_object[OF run miss, of self]
  show d: "dispatch e self rid w = Raises (Exception ''S3Error'' ''NoSuchKey'') ?w'"
    by (simp add: dispatch_def)
  show "current_status rid (world_of (dispatch e self rid w)) = current_status rid w"
    using d by (simp add: current_status_frame[of ?w' w] emit_simps)
  show "status_writes rid (trace (world_of (dispatch e self rid w))) = status_writes rid (trace w)"
    using d by (simp add: emit_simps status_writes_append)
next
  fix th w1
  assume "execute e self rid w = Returns th w1 \<and> task_raises e (th_flow th)"
  then have ex: "execute e self rid w = Returns th w1" and tr: "task_raises e (th_flow th)"
    by simp_all
  let ?x = "if ex_local self then None else Some (ex_executor self)"
  let ?m = "if ex_local self then ''Running locally'' else ''Running on scheduler''"
  from dispatch_started[OF ex] dist obtain w2 w3 w4 where
    d: "dispatch e self rid w = threaded_execution_handler self (run_Flow e (th_flow th)) rid w1"
    and q: "set_status RUN_STATUS_QUEUED rid w1 = Returns () w2"
    and rn: "set_status RUN_STATUS_RUNNING (flow_run_id (th_flow th)) (logger_info ?m w2) = Returns () w3"
    and w4: "world_of (run_Flow e (th_flow th) ?x (logger_info ?m w2)) = w4"
    and r4: "\<exists>r'. find (\<lambda>r. run_id r = rid) (runs w4) = Some r'"
    and wr: "status_writes rid (trace w4) =
             status_writes rid (trace w) @ [RUN_STATUS_QUEUED, RUN_STATUS_RUNNING]"
    and d4: "distinct (map pk (statuses w4))"
    by blast
  from r4 obtain r' where r': "find (\<lambda>r. run_id r = rid) (runs w4) = Some r'" by blast
  from run_Flow_task_raises[OF rn tr, of ?x] obtain st w5 where
    fr: "run_Flow e (th_flow th) ?x (logger_info ?m w2) = Returns st w5" and f: "is_failed st"
    by blast
  with w4 have e5: "w5 = w4" by simp
  from handler_finish(1)[where flow = "run_Flow e (th_flow th)" and self = self,
      OF q fr r'[folded e5] f] d4 e5
  obtain w' where
    "threaded_execution_handler self (run_Flow e (th_flow th)) rid w1 = Returns () w'"
    "status_writes rid (trace w') = status_writes rid (trace w5) @ [RUN_STATUS_FAILED]"
    "current_status rid w' = Some RUN_STATUS_FAILED"
    by blast
  with d wr e5 show "\<exists>w'. dispatch e self rid w = Returns () w' \<and>
                  current_status rid w' = Some RUN_STATUS_FAILED \<and>
                  status_writes rid (trace w') =
                    status_writes rid (trace w) @
                      [RUN_STATUS_QUEUED, RUN_STATUS_RUNNING, RUN_STATUS_FAILED]"
    by simp
qed

text \<open>
  C5 (as amended). When the subprocess of the rendered script exits, with whatever
  return code, its standard output and standard error are read and logged; the return
  code is not read, and with the configuration loaded the dispatch leaves the Run
  \<open>completed\<close>.
\<close>

theorem exit_code_not_read:
  assumes run: "find (\<lambda>r. run_id r = rid) (runs w) = Some run"
      and dist: "distinct (map pk (statuses w))"
      and ex: "execute e self rid w = Returns th w1"
      and cfg: "config_error e = None"
      and ren: "jinja_render e (flow_template_text (th_flow th)) (flow_kwargs (th_flow th)) = Inr rendered"
      and pr: "popen e rendered = Inr (Exits n code out err)"
  shows "\<exists>w'. dispatch e self rid w = Returns () w' \<and>
              current_status rid w' = Some RUN_STATUS_COMPLETED \<and>
              Logged INFO (''stdout:'' @ [CHR 0x0A] @ out) \<in> set (trace w') \<and>
              Logged INFO (''stderr:'' @ [CHR 0x0A] @ err) \<in> set (trace w')"
proof -
  let ?x = "if ex_local self then None else Some (ex_executor self)"
  let ?m = "if ex_local self then ''Running locally'' else ''Running on scheduler''"
  from dispatch_started[OF ex] dist obtain w2 w3 w4 where
    d: "dispatch e self rid w = threaded_execution_handler self (run_Flow e (th_flow th)) rid w1"
    and q: "set_status RUN_STATUS_QUEUED rid w1 = Returns () w2"
    and rn: "set_status RUN_STATUS_RUNNING (flow_run_id (th_flow th)) (logger_info ?m w2) = Returns () w3"
    and w4: "world_of (run_Flow e (th_flow th) ?x (logger_info ?m w2)) = w4"
    and r4: "\<exists>r'. find (\<lambda>r. run_id r = rid) (runs w4) = Some r'"
    and d4: "distinct (map pk (statuses w4))"
    by blast
  from r4 obtain r' where r': "find (\<lambda>r. run_id r = rid) (runs w4) = Some r'" by blast
  from run_Flow_exits[OF rn cfg ren pr, of ?x] obtain w5 where
    fr: "run_Flow e (th_flow th) ?x (logger_info ?m w2) = Returns Success w5"
    and lo: "Logged INFO (''stdout:'' @ [CHR 0x0A] @ out) \<in> set (trace w5)"
    and le: "Logged INFO (''stderr:'' @ [CHR 0x0A] @ err) \<in> set (trace w5)"
    by blast
  with w4 have e5: "w5 = w4" by simp
  have s: "is_successful Success" by simp
  from handler_finish(2)[where flow = "run_Flow e (th_flow th)" and self = self,
      OF q fr r'[folded e5] s] d4 e5
  obtain w' evs where
    "threaded_execution_handler self (run_Flow e (th_flow th)) rid w1 = Returns () w'"
    "trace w' = trace w5 @ evs"
    "current_status rid w' = Some RUN_STATUS_COMPLETED"
    by blast
  with d lo le show ?thesis by simp
qed

theorem pipeline_failure_status_counterexample:
  "map_of (minio_objects sample_env) ''gone.py'' = None \<and>
   dispatch sample_env sample_executor ''r2'' sample_world =
     Raises (Exception ''S3Error'' ''NoSuchKey'')
       (sample_world\<lparr>trace := trace sample_world @ [RunGet ''r2'', ObjectGet ''models'' ''gone.py'']\<rparr>) \<and>
   current_status ''r2'' (world_of (dispatch sample_env sample_executor ''r2'' sample_world))
     = Some ''created''"
  by (simp add: run_defs model_defs sample_defs Let_def)

theorem pipeline_failure_status_witness:
  "dispatch sample_env sample_executor ''r2'' sample_world =
     Raises (Exception ''S3Error'' ''NoSuchKey'')
       (emit (ObjectGet ''models'' ''gone.py'') (emit (RunGet ''r2'') sample_world)) \<and>
   current_status ''r1'' (world_of (dispatch unrenderable_env sample_executor ''r1'' sample_world))
     = Some ''failed'' \<and>
   status_writes ''r1'' (trace (world_of (dispatch unrenderable_env sample_executor ''r1'' sample_world)))
     = [''created'', ''queued'', ''running'', ''failed'']"
proof -
  have r2: "find (\<lambda>r. run_id r = ''r2'') (runs sample_world) =
              Some \<lparr>run_id = ''r2'', run_script_path = ''gone.py'', run_model_config = ''{}'',
                    run_parameters_config = ''{epochs: 3}'', status_pk = 1\<rparr>"
    by (simp add: sample_defs)
  have r1: "find (\<lambda>r. run_id r = ''r1'') (runs sample_world) =
              Some \<lparr>run_id = ''r1'', run_script_path = ''train.py'', run_model_config = ''{}'',
                    run_parameters_config = ''{epochs: 3}'', status_pk = 1\<rparr>"
    by (simp add: sample_defs)
  have d: "distinct (map pk (statuses sample_world))"
    by (simp add: sample_defs)
  have a: "dispatch sample_env sample_executor ''r2'' sample_world =
     Raises (Exception ''S3Error'' ''NoSuchKey'')
       (emit (ObjectGet ''models'' ''gone.py'') (emit (RunGet ''r2'') sample_world))"
    using pipeline_failure_status[OF r2 d, of sample_env sample_executor]
    by (simp add: sample_defs)
  obtain th w1 where ex: "execute unrenderable_env sample_executor ''r1'' sample_world = Returns th w1"
    by (simp add: unrenderable_env_def run_defs model_defs sample_defs Let_def)
  have tr: "task_raises unrenderable_env (th_flow th)"
    by (simp add: task_raises_def unrenderable_env_def sample_defs)
  from pipeline_failure_status[OF r1 d, of unrenderable_env sample_executor] ex tr
  have "\<exists>w'. dispatch unrenderable_env sample_executor ''r1'' sample_world = Returns () w' \<and>
             current_status ''r1'' w' = Some RUN_STATUS_FAILED \<and>
             status_writes ''r1'' (trace w') =
               status_writes ''r1'' (trace sample_world) @
                 [RUN_STATUS_QUEUED, RUN_STATUS_RUNNING, RUN_STATUS_FAILED]"
    by blast
  then obtain w' where
    w': "dispatch unrenderable_env sample_executor ''r1'' sample_world = Returns () w'"
      "current_status ''r1'' w' = Some RUN_STATUS_FAILED"
      "status_writes ''r1'' (trace w') =
         status_writes ''r1'' (trace sample_world) @
           [RUN_STATUS_QUEUED, RUN_STATUS_RUNNING, RUN_STATUS_FAILED]"
    by blast
  have sw: "status_writes ''r1'' (trace sample_world) = [''created'']"
    by (simp add: sample_defs)
  have b: "current_status ''r1'' (world_of (dispatch unrenderable_env sample_executor ''r1'' sample_world))
     = Some ''failed'' \<and>
   status_writes ''r1'' (trace (world_of (dispatch unrenderable_env sample_executor ''r1'' sample_world)))
     = [''created'', ''queued'', ''running'', ''failed'']"
    using w' sw
    by (simp add: RUN_STATUS_QUEUED_def RUN_STATUS_RUNNING_def RUN_STATUS_FAILED_def)
  from a b show ?thesis by simp
qed

theorem exit_code_not_read_counterexample:
  "popen crashing_env ''print(3)'' = Inr (Exits 0 1 [] ''Traceback'') \<and>
   current_status ''r1'' (world_of (dispatch crashing_env sample_executor ''r1'' sample_world))
     = Some ''completed'' \<and>
   status_writes ''r1'' (trace (world_of (dispatch crashing_env sample_executor ''r1'' sample_world)))
     = [''created'', ''queued'', ''running'', ''completed'']"
  by (simp add: crashing_env_def run_defs model_defs sample_defs Let_def)

theorem exit_code_not_read_witness:
  "current_status ''r1'' (world_of (dispatch crashing_env sample_executor ''r1'' sample_world))
     = Some RUN_STATUS_COMPLETED \<and>
   Logged INFO (''stdout:'' @ [CHR 0x0A] @ [])
     \<in> set (trace (world_of (dispatch crashing_env sample_executor ''r1'' sample_world))) \<and>
   Logged INFO (''stderr:'' @ [CHR 0x0A] @ ''Traceback'')
     \<in> set (trace (world_of (dispatch crashing_env sample_executor ''r1'' sample_world)))"
proof -
  have r1: "find (\<lambda>r. run_id r = ''r1'') (runs sample_world) =
              Some \<lparr>run_id = ''r1'', run_script_path = ''train.py'', run_model_config = ''{}'',
                    run_parameters_config = ''{epochs: 3}'', status_pk = 1\<rparr>"
    by (simp add: sample_defs)
  have d: "distinct (map pk (statuses sample_world))"
    by (simp add: sample_defs)
  obtain th w1 where ex: "execute crashing_env sample_executor ''r1'' sample_world = Returns th w1"
    by (simp add: crashing_env_def run_defs model_defs sample_defs Let_def)
  have cfg: "config_error crashing_env = None"
    by (simp add: crashing_env_def sample_defs)
  have ren: "jinja_render crashing_env (flow_template_text (th_flow th)) (flow_kwargs (th_flow th))
               = Inr ''print(3)''"
    by (simp add: crashing_env_def sample_defs)
  have pr: "popen crashing_env ''print(3)'' = Inr (Exits 0 1 [] ''Traceback'')"
    by (simp add: crashing_env_def sample_defs)
  from exit_code_not_read[OF r1 d ex cfg ren pr] show ?thesis
    by auto
qed

section \<open>What execute does in the thread of its caller\<close>











section \<open>A poll cycle\<close>

lemma calls_append: "calls (xs @ ys) = calls xs @ calls ys"
  by (induction xs rule: calls.induct) simp_all

lemma makes_calls_refl: "makes_calls w w []"
  by (simp add: makes_calls_def)

lemma makes_calls_trans:
  "makes_calls w w1 a \<Longrightarrow> makes_calls w1 w2 b \<Longrightarrow> makes_calls w w2 (a @ b)"
  by (auto simp: makes_calls_def calls_append)

lemma makes_calls_log: "makes_calls w (logger_info m w) []"
  by (simp add: makes_calls_def logger_simps)

lemma returns_execute_cong:
  "runs w' = runs w \<Longrightarrow> returns (execute e ex' rid w') = returns (execute e ex rid w)"
  by (simp add: execute_def safe_object_get_Run_def Let_def
      split: option.splits sum.splits body.splits)

lemma execute_makes_calls:
  "makes_calls w (world_of (execute e ex rid w))
     (if returns (execute e ex rid w) then [RunGet rid, ThreadStarted rid] else [RunGet rid])"
  by (simp add: execute_def safe_object_get_Run_def Let_def makes_calls_def emit_simps
      logger_simps split: option.splits sum.splits body.splits)

lemma execute_thread:
  "execute e ex rid w = Returns th w1 \<Longrightarrow> th_run_id th = rid \<and> th_self th = ex"
  using execute_Returns by blast


text \<open>One turn of the loop over the Runs when the Coach has both singletons.\<close>

lemma dispatch_runs_Cons_ready:
  assumes "co_scheduler self = Some s" and "co_executor self = Some ex"
  shows "dispatch_runs e self (run # rest) w =
           (case execute e ex (run_id run)
                   (logger_info (''Sending new run ('' @ str_Run run @ '') to the executor'') w) of
              Raises err w4 \<Rightarrow> (self, [], Raises err w4)
            | Diverges w4 \<Rightarrow> (self, [], Diverges w4)
            | Returns th w4 \<Rightarrow>
                (case dispatch_runs e self rest w4 of
                   (self3, ths, out) \<Rightarrow> (self3, th # ths, out)))"
  apply (subst dispatch_runs.simps(2))
  apply (simp only: Let_def assms option.distinct if_False prod.case outcome.case option.case)
  done

lemma dispatch_runs_ready:
  assumes "co_scheduler self = Some s" and "co_executor self = Some ex"
  shows "\<exists>ths out. dispatch_runs e self rs w = (self, ths, out) \<and>
           map th_run_id ths =
             map run_id (takeWhile (\<lambda>r. returns (execute e ex (run_id r) w)) rs) \<and>
           (returns out \<longleftrightarrow> list_all (\<lambda>r. returns (execute e ex (run_id r) w)) rs) \<and>
           (\<forall>th \<in> set ths. th_self th = ex) \<and>
           makes_calls w (world_of out)
             (dispatch_calls (\<lambda>r. returns (execute e ex (run_id r) w)) rs)"
proof (induction rs arbitrary: w)
  case Nil
  show ?case by (simp add: makes_calls_refl)
next
  case (Cons run rest)
  let ?w1 = "logger_info (''Sending new run ('' @ str_Run run @ '') to the executor'') w"
  let ?ok = "\<lambda>r. returns (execute e ex (run_id r) w)"
  note eq = dispatch_runs_Cons_ready[OF assms, where e = e and run = run and rest = rest and w = w]
  have r1: "runs ?w1 = runs w" by (simp add: logger_simps)
  have ok1: "returns (execute e ex (run_id run) ?w1) = ?ok run"
    by (rule returns_execute_cong[OF r1])
  have m1: "makes_calls w (world_of (execute e ex (run_id run) ?w1))
              (if ?ok run then [RunGet (run_id run), ThreadStarted (run_id run)]
               else [RunGet (run_id run)])"
    using makes_calls_trans[OF makes_calls_log[of w "''Sending new run ('' @ str_Run run @ '') to the executor''"]
            execute_makes_calls[of ?w1 e ex "run_id run"]] ok1
    by simp
  show ?case
  proof (cases "execute e ex (run_id run) ?w1")
    case (Raises err w4)
    with eq ok1 m1 show ?thesis by (simp del: dispatch_runs.simps)
  next
    case (Diverges w4)
    with eq ok1 m1 show ?thesis by (simp del: dispatch_runs.simps)
  next
    case (Returns th w4)
    have d: "?ok run" using ok1 Returns by simp
    have m4: "makes_calls w w4 [RunGet (run_id run), ThreadStarted (run_id run)]"
      using m1 d Returns by simp
    then have r4: "runs w4 = runs w" by (simp add: makes_calls_def)
    have cong: "(\<lambda>r. returns (execute e ex (run_id r) w4)) = ?ok"
      by (intro ext) (rule returns_execute_cong[OF r4])
    from Cons.IH[of w4] obtain ths out where
      r: "dispatch_runs e self rest w4 = (self, ths, out)"
      and m: "map th_run_id ths = map run_id (takeWhile ?ok rest)"
      and ret: "returns out \<longleftrightarrow> list_all ?ok rest"
      and own: "\<forall>th \<in> set ths. th_self th = ex"
      and mc: "makes_calls w4 (world_of out) (dispatch_calls ?ok rest)"
      unfolding cong by (elim exE conjE) (rule that, assumption+)
    have a: "dispatch_runs e self (run # rest) w = (self, th # ths, out)"
      using eq Returns r by (simp del: dispatch_runs.simps)
    have b: "map th_run_id (th # ths) = map run_id (takeWhile ?ok (run # rest))"
      using m d execute_thread[OF Returns] by simp
    have c: "returns out \<longleftrightarrow> list_all ?ok (run # rest)"
      using ret d by simp
    have f: "\<forall>t \<in> set (th # ths). th_self t = ex"
      using own execute_thread[OF Returns] by simp
    have g: "makes_calls w (world_of out) (dispatch_calls ?ok (run # rest))"
      using makes_calls_trans[OF m4 mc] d by simp
    from a b c f g show ?thesis
      by (intro exI[of _ "th # ths"] exI[of _ out]) (simp del: dispatch_runs.simps)
  qed
qed

text \<open>The head of the loop: how the two singletons come to exist.\<close>

lemma dispatch_runs_first:
  assumes "ensured_singletons e self = Some (s, ex)"
  shows "\<exists>w3. makes_calls w w3
                 ((if co_scheduler self = None then [SchedulerNew] else []) @
                  (if co_executor self = None then [ExecutorNew (address s)] else [])) \<and>
           dispatch_runs e self (run # rest) w =
             (case execute e ex (run_id run) w3 of
                Raises err w4 \<Rightarrow>
                  (self\<lparr>co_scheduler := Some s, co_executor := Some ex\<rparr>, [], Raises err w4)
              | Diverges w4 \<Rightarrow>
                  (self\<lparr>co_scheduler := Some s, co_executor := Some ex\<rparr>, [], Diverges w4)
              | Returns th w4 \<Rightarrow>
                  (case dispatch_runs e (self\<lparr>co_scheduler := Some s, co_executor := Some ex\<rparr>)
                          rest w4 of
                     (self3, ths, out) \<Rightarrow> (self3, th # ths, out)))"
proof -
  let ?w1 = "logger_info (''Sending new run ('' @ str_Run run @ '') to the executor'') w"
  let ?self1 = "self\<lparr>co_scheduler := Some s\<rparr>"
  let ?self2 = "self\<lparr>co_scheduler := Some s, co_executor := Some ex\<rparr>"
  from assms have sch:
    "co_scheduler self = Some s \<or> (co_scheduler self = None \<and> scheduler_new e = Inr s)"
    by (auto simp: ensured_singletons_def split: option.splits sum.splits)
  from assms have exe:
    "co_executor self = Some ex \<or> (co_executor self = None \<and> ex = Executor_init s False)"
    by (auto simp: ensured_singletons_def split: option.splits sum.splits)
  define w2 where "w2 =
    (if co_scheduler self = None
     then logger_info ''Scheduler instance started successfully!''
            (emit SchedulerNew (logger_info ''Starting Scheduler instance...'' ?w1))
     else ?w1)"
  define w3 where "w3 =
    (if co_executor self = None
     then logger_info ''Executor instance started successfully!''
            (emit (ExecutorNew (address s)) (logger_info ''Starting Executor instance...'' w2))
     else w2)"
  have a: "(if co_scheduler self = None then initialize_scheduler e self ?w1
            else (self, Returns () ?w1)) = (?self1, Returns () w2)"
    using sch by (cases self) (auto simp: w2_def initialize_scheduler_def Let_def)
  have b: "(if co_executor ?self1 = None then initialize_executor e ?self1 w2
            else (?self1, Returns () w2)) = (?self2, Returns () w3)"
    using exe by (cases self) (auto simp: w3_def initialize_executor_def Let_def)
  have x: "co_executor ?self2 = Some ex" by simp
  have m1: "makes_calls w ?w1 []" by (rule makes_calls_log)
  have m2: "makes_calls ?w1 w2 (if co_scheduler self = None then [SchedulerNew] else [])"
    by (simp add: w2_def makes_calls_def logger_simps emit_simps)
  have m3: "makes_calls w2 w3 (if co_executor self = None then [ExecutorNew (address s)] else [])"
    by (simp add: w3_def makes_calls_def logger_simps emit_simps)
  have m: "makes_calls w w3
             ((if co_scheduler self = None then [SchedulerNew] else []) @
              (if co_executor self = None then [ExecutorNew (address s)] else []))"
    using makes_calls_trans[OF makes_calls_trans[OF m1 m2] m3] by simp
  have eq: "dispatch_runs e self (run # rest) w =
             (case execute e ex (run_id run) w3 of
                Raises err w4 \<Rightarrow> (?self2, [], Raises err w4)
              | Diverges w4 \<Rightarrow> (?self2, [], Diverges w4)
              | Returns th w4 \<Rightarrow>
                  (case dispatch_runs e ?self2 rest w4 of
                     (self3, ths, out) \<Rightarrow> (self3, th # ths, out)))"
    apply (subst dispatch_runs.simps(2))
    apply (simp only: Let_def a prod.case outcome.case b x option.case)
    done
  from m eq show ?thesis by (intro exI[of _ w3] conjI)
qed

text \<open>The head of the loop when no Scheduler can be built.\<close>

lemma dispatch_runs_no_scheduler:
  assumes "ensured_singletons e self = None"
  shows "\<exists>err v. scheduler_new e = Inl err \<and>
           dispatch_runs e self (run # rest) w = (self, [], Raises err v) \<and>
           makes_calls w v [SchedulerNew]"
proof -
  let ?w1 = "logger_info (''Sending new run ('' @ str_Run run @ '') to the executor'') w"
  let ?v = "emit SchedulerNew (logger_info ''Starting Scheduler instance...'' ?w1)"
  from assms obtain err where n: "co_scheduler self = None" and err: "scheduler_new e = Inl err"
    by (auto simp: ensured_singletons_def split: option.splits sum.splits)
  have a: "(if co_scheduler self = None then initialize_scheduler e self ?w1
            else (self, Returns () ?w1)) = (self, Raises err ?v)"
    using n err by (simp add: initialize_scheduler_def Let_def)
  have eq: "dispatch_runs e self (run # rest) w = (self, [], Raises err ?v)"
    apply (subst dispatch_runs.simps(2))
    apply (simp only: Let_def a prod.case outcome.case)
    done
  have m: "makes_calls w ?v [SchedulerNew]"
    by (simp add: makes_calls_def logger_simps emit_simps)
  from err eq m show ?thesis by (intro exI[of _ err] exI[of _ ?v] conjI)
qed


lemma dispatchable_cong:
  "runs w' = runs w \<Longrightarrow> dispatchable e self w' = dispatchable e self w"
  by (intro ext)
     (simp add: dispatchable_def returns_execute_cong[of w' w] split: option.splits prod.splits)

lemma dispatch_runs_props:
  "\<exists>self' ths out cs.
     dispatch_runs e self rs w = (self', ths, out) \<and>
     makes_calls w (world_of out) cs \<and>
     map th_run_id ths = map run_id (takeWhile (dispatchable e self w) rs) \<and>
     (returns out \<longleftrightarrow> list_all (dispatchable e self w) rs) \<and>
     (rs = [] \<longrightarrow> self' = self \<and> cs = []) \<and>
     (rs \<noteq> [] \<longrightarrow>
        (case ensured_singletons e self of
           None \<Rightarrow>
             self' = self \<and> cs = [SchedulerNew] \<and>
             (\<exists>err v. scheduler_new e = Inl err \<and> out = Raises err v)
         | Some (s, ex) \<Rightarrow>
             self' = self\<lparr>co_scheduler := Some s, co_executor := Some ex\<rparr> \<and>
             (\<forall>th \<in> set ths. th_self th = ex) \<and>
             cs = (if co_scheduler self = None then [SchedulerNew] else []) @
                  (if co_executor self = None then [ExecutorNew (address s)] else []) @
                  dispatch_calls (dispatchable e self w) rs))"
proof (cases rs)
  case Nil
  then show ?thesis by (simp add: makes_calls_refl)
next
  case (Cons run rest)
  show ?thesis
  proof (cases "ensured_singletons e self")
    case None
    from dispatch_runs_no_scheduler[OF None, of run rest w] obtain err v where
      err: "scheduler_new e = Inl err"
      and eq: "dispatch_runs e self (run # rest) w = (self, [], Raises err v)"
      and m: "makes_calls w v [SchedulerNew]"
      by (elim exE conjE) (rule that, assumption+)
    have nd: "\<not> dispatchable e self w run" using None by (simp add: dispatchable_def)
    from err eq m nd None Cons show ?thesis
      by (intro exI[of _ self] exI[of _ "[]"] exI[of _ "Raises err v"] exI[of _ "[SchedulerNew]"])
         (simp del: dispatch_runs.simps)
  next
    case (Some p)
    obtain s ex where p: "p = (s, ex)" by (cases p)
    with Some have en: "ensured_singletons e self = Some (s, ex)" by simp
    let ?self2 = "self\<lparr>co_scheduler := Some s, co_executor := Some ex\<rparr>"
    let ?pre = "(if co_scheduler self = None then [SchedulerNew] else []) @
                (if co_executor self = None then [ExecutorNew (address s)] else [])"
    let ?ok = "dispatchable e self w"
    have ok: "?ok = (\<lambda>r. returns (execute e ex (run_id r) w))"
      using en by (intro ext) (simp add: dispatchable_def)
    from dispatch_runs_first[OF en, of w run rest] obtain w3 where
      m: "makes_calls w w3 ?pre"
      and eq: "dispatch_runs e self (run # rest) w =
             (case execute e ex (run_id run) w3 of
                Raises err w4 \<Rightarrow> (?self2, [], Raises err w4)
              | Diverges w4 \<Rightarrow> (?self2, [], Diverges w4)
              | Returns th w4 \<Rightarrow>
                  (case dispatch_runs e ?self2 rest w4 of
                     (self3, ths, out) \<Rightarrow> (self3, th # ths, out)))"
      by (elim exE conjE) (rule that, assumption+)
    have r3: "runs w3 = runs w" using m by (simp add: makes_calls_def)
    have ok3: "returns (execute e ex (run_id run) w3) = ?ok run"
      unfolding ok by (rule returns_execute_cong[OF r3])
    have me: "makes_calls w (world_of (execute e ex (run_id run) w3))
                (?pre @ (if ?ok run then [RunGet (run_id run), ThreadStarted (run_id run)]
                         else [RunGet (run_id run)]))"
      using makes_calls_trans[OF m execute_makes_calls[of w3 e ex "run_id run"]] ok3 by simp
    show ?thesis
    proof (cases "execute e ex (run_id run) w3")
      case (Raises err w4)
      with ok3 have nd: "\<not> ?ok run" by simp
      have "makes_calls w w4 (?pre @ dispatch_calls ?ok (run # rest))"
        using me nd Raises by simp
      with eq Raises nd en Cons show ?thesis
        by (intro exI[of _ ?self2] exI[of _ "[]"] exI[of _ "Raises err w4"]
              exI[of _ "?pre @ dispatch_calls ?ok (run # rest)"])
           (simp del: dispatch_runs.simps dispatch_calls.simps)
    next
      case (Diverges w4)
      with ok3 have nd: "\<not> ?ok run" by simp
      have "makes_calls w w4 (?pre @ dispatch_calls ?ok (run # rest))"
        using me nd Diverges by simp
      with eq Diverges nd en Cons show ?thesis
        by (intro exI[of _ ?self2] exI[of _ "[]"] exI[of _ "Diverges w4"]
              exI[of _ "?pre @ dispatch_calls ?ok (run # rest)"])
           (simp del: dispatch_runs.simps dispatch_calls.simps)
    next
      case (Returns th w4)
      with ok3 have d: "?ok run" by simp
      have m4: "makes_calls w w4 (?pre @ [RunGet (run_id run), ThreadStarted (run_id run)])"
        using me d Returns by simp
      then have r4: "runs w4 = runs w" by (simp add: makes_calls_def)
      have cong: "(\<lambda>r. returns (execute e ex (run_id r) w4)) = ?ok"
        unfolding ok by (intro ext) (rule returns_execute_cong[OF r4])
      have s2: "co_scheduler ?self2 = Some s" and x2: "co_executor ?self2 = Some ex"
        by simp_all
      from dispatch_runs_ready[OF s2 x2, of e rest w4] obtain ths out where
        r: "dispatch_runs e ?self2 rest w4 = (?self2, ths, out)"
        and mp: "map th_run_id ths = map run_id (takeWhile ?ok rest)"
        and ret: "returns out \<longleftrightarrow> list_all ?ok rest"
        and own: "\<forall>th \<in> set ths. th_self th = ex"
        and mc: "makes_calls w4 (world_of out) (dispatch_calls ?ok rest)"
        unfolding cong by (elim exE conjE) (rule that, assumption+)
      have a: "dispatch_runs e self (run # rest) w = (?self2, th # ths, out)"
        using eq Returns r by (simp del: dispatch_runs.simps)
      have b: "map th_run_id (th # ths) = map run_id (takeWhile ?ok (run # rest))"
        using mp d execute_thread[OF Returns] by simp
      have c: "returns out \<longleftrightarrow> list_all ?ok (run # rest)"
        using ret d by simp
      have f: "\<forall>t \<in> set (th # ths). th_self t = ex"
        using own execute_thread[OF Returns] by simp
      have g: "makes_calls w (world_of out) (?pre @ dispatch_calls ?ok (run # rest))"
        using makes_calls_trans[OF m4 mc] d by simp
      from a b c f g en Cons show ?thesis
        by (intro exI[of _ ?self2] exI[of _ "th # ths"] exI[of _ out]
              exI[of _ "?pre @ dispatch_calls ?ok (run # rest)"])
           (simp del: dispatch_runs.simps dispatch_calls.simps)
    qed
  qed
qed


text \<open>
  C7 (as amended). In a poll cycle whose query succeeds: the query is the first thing the
  cycle does and gives exactly the Runs whose Status is \<open>created\<close>. The loop takes
  them in the order of the query. For the first Run it ensures the two singletons: a
  Scheduler or an Executor that the Coach already has is kept, one that is missing is
  built, once in the cycle, the Scheduler before the Executor and the Executor on that
  Scheduler; when the Scheduler cannot be built its error ends the loop over the Runs and
  no Run is dispatched. Then \<open>execute\<close> is called once for each Run in turn, always on
  that one Executor, and starts one thread for the Run, up to and including the first Run
  for which \<open>execute\<close> raises; the Runs after that one are not reached in this cycle.
  The \<^verbatim>\<open>try\<close> block ends normally exactly when every Run found could be
  dispatched. When no Run is found nothing is built and nothing is called.
\<close>

theorem poll_dispatches_in_order:
  assumes "query_error e = None"
  shows "\<exists>self' ths out evs.
           poll_body e self w = (self', ths, out) \<and>
           set (new_runs w) =
             {r \<in> set (runs w).
                \<exists>s \<in> set (statuses w). pk s = status_pk r \<and> status s = RUN_STATUS_CREATED} \<and>
           trace (world_of out) = trace w @ RunFilter RUN_STATUS_CREATED # evs \<and>
           map th_run_id ths = map run_id (takeWhile (dispatchable e self w) (new_runs w)) \<and>
           (returns out \<longleftrightarrow> list_all (dispatchable e self w) (new_runs w)) \<and>
           (new_runs w = [] \<longrightarrow> self' = self \<and> calls evs = []) \<and>
           (new_runs w \<noteq> [] \<longrightarrow>
              (case ensured_singletons e self of
                 None \<Rightarrow>
                   self' = self \<and> calls evs = [SchedulerNew] \<and>
                   (\<exists>err v. scheduler_new e = Inl err \<and> out = Raises err v)
               | Some (s, ex) \<Rightarrow>
                   self' = self\<lparr>co_scheduler := Some s, co_executor := Some ex\<rparr> \<and>
                   (\<forall>s0. co_scheduler self = Some s0 \<longrightarrow> s = s0) \<and>
                   (\<forall>ex0. co_executor self = Some ex0 \<longrightarrow> ex = ex0) \<and>
                   (co_executor self = None \<longrightarrow> ex = Executor_init s False) \<and>
                   (\<forall>th \<in> set ths. th_self th = ex) \<and>
                   calls evs =
                     (if co_scheduler self = None then [SchedulerNew] else []) @
                     (if co_executor self = None then [ExecutorNew (address s)] else []) @
                     dispatch_calls (dispatchable e self w) (new_runs w)))"
proof -
  let ?w1 = "emit (RunFilter RUN_STATUS_CREATED) w"
  have cong: "dispatchable e self ?w1 = dispatchable e self w"
    by (rule dispatchable_cong) (simp add: emit_simps)
  from dispatch_runs_props[of e self "new_runs w" ?w1] obtain self' ths out cs where
    r: "dispatch_runs e self (new_runs w) ?w1 = (self', ths, out)"
    and mc: "makes_calls ?w1 (world_of out) cs"
    and m: "map th_run_id ths = map run_id (takeWhile (dispatchable e self w) (new_runs w))"
    and ret: "returns out \<longleftrightarrow> list_all (dispatchable e self w) (new_runs w)"
    and nil: "new_runs w = [] \<longrightarrow> self' = self \<and> cs = []"
    and cons: "new_runs w \<noteq> [] \<longrightarrow>
        (case ensured_singletons e self of
           None \<Rightarrow>
             self' = self \<and> cs = [SchedulerNew] \<and>
             (\<exists>err v. scheduler_new e = Inl err \<and> out = Raises err v)
         | Some (s, ex) \<Rightarrow>
             self' = self\<lparr>co_scheduler := Some s, co_executor := Some ex\<rparr> \<and>
             (\<forall>th \<in> set ths. th_self th = ex) \<and>
             cs = (if co_scheduler self = None then [SchedulerNew] else []) @
                  (if co_executor self = None then [ExecutorNew (address s)] else []) @
                  dispatch_calls (dispatchable e self w) (new_runs w))"
    unfolding cong by (elim exE conjE) (rule that, assumption+)
  from mc obtain evs where
    tr: "trace (world_of out) = trace ?w1 @ evs" and cl: "calls evs = cs"
    by (auto simp: makes_calls_def)
  have a: "poll_body e self w = (self', ths, out)"
    using assms r by (simp add: poll_body_def Let_def)
  have b: "set (new_runs w) =
             {r \<in> set (runs w).
                \<exists>s \<in> set (statuses w). pk s = status_pk r \<and> status s = RUN_STATUS_CREATED}"
    by (auto simp: new_runs_def list_ex_iff)
  have c: "trace (world_of out) = trace w @ RunFilter RUN_STATUS_CREATED # evs"
    using tr by (simp add: emit_simps)
  have kept: "\<And>s ex. ensured_singletons e self = Some (s, ex) \<Longrightarrow>
                (\<forall>s0. co_scheduler self = Some s0 \<longrightarrow> s = s0) \<and>
                (\<forall>ex0. co_executor self = Some ex0 \<longrightarrow> ex = ex0) \<and>
                (co_executor self = None \<longrightarrow> ex = Executor_init s False)"
    by (auto simp: ensured_singletons_def split: option.splits sum.splits)
  have d: "new_runs w \<noteq> [] \<longrightarrow>
              (case ensured_singletons e self of
                 None \<Rightarrow>
                   self' = self \<and> calls evs = [SchedulerNew] \<and>
                   (\<exists>err v. scheduler_new e = Inl err \<and> out = Raises err v)
               | Some (s, ex) \<Rightarrow>
                   self' = self\<lparr>co_scheduler := Some s, co_executor := Some ex\<rparr> \<and>
                   (\<forall>s0. co_scheduler self = Some s0 \<longrightarrow> s = s0) \<and>
                   (\<forall>ex0. co_executor self = Some ex0 \<longrightarrow> ex = ex0) \<and>
                   (co_executor self = None \<longrightarrow> ex = Executor_init s False) \<and>
                   (\<forall>th \<in> set ths. th_self th = ex) \<and>
                   calls evs =
                     (if co_scheduler self = None then [SchedulerNew] else []) @
                     (if co_executor self = None then [ExecutorNew (address s)] else []) @
                     dispatch_calls (dispatchable e self w) (new_runs w))"
  proof (cases "ensured_singletons e self")
    case None
    with cons cl show ?thesis by simp
  next
    case (Some p)
    obtain s ex where p: "p = (s, ex)" by (cases p)
    from kept[of s ex] Some p cons cl show ?thesis by simp
  qed
  have n: "new_runs w = [] \<longrightarrow> self' = self \<and> calls evs = []"
    using nil cl by simp
  from a b c m ret n d show ?thesis
    by (intro exI[of _ self'] exI[of _ ths] exI[of _ out] exI[of _ evs] conjI)
qed

theorem poll_dispatches_in_order_counterexample:
  "map run_id (new_runs blocked_world) = [''r2'', ''r1''] \<and>
   fst (snd (poll_body sample_env sample_coach blocked_world)) = [] \<and>
   ThreadStarted ''r1''
     \<notin> set (trace (world_of (snd (snd (poll_body sample_env sample_coach blocked_world)))))"
  by (simp add: blocked_world_def coach_defs run_defs model_defs sample_defs Let_def)

theorem poll_dispatches_in_order_witness:
  "(\<exists>ths out evs.
      poll_body sample_env sample_coach sample_world =
        (\<lparr>co_scheduler = Some sample_scheduler,
          co_executor = Some (Executor_init sample_scheduler False)\<rparr>, ths, out) \<and>
      trace (world_of out) = trace sample_world @ RunFilter RUN_STATUS_CREATED # evs \<and>
      map th_run_id ths = [''r1''] \<and>
      map th_self ths = [Executor_init sample_scheduler False] \<and>
      \<not> returns out \<and>
      calls evs =
        [SchedulerNew, ExecutorNew ''tcp://10.0.0.1:8786'',
         RunGet ''r1'', ThreadStarted ''r1'', RunGet ''r2'']) \<and>
   (\<exists>ths out evs.
      poll_body sample_env local_coach sample_world = (local_coach, ths, out) \<and>
      trace (world_of out) = trace sample_world @ RunFilter RUN_STATUS_CREATED # evs \<and>
      map th_run_id ths = [''r1''] \<and>
      map th_self ths = [Executor_init sample_scheduler True] \<and>
      \<not> returns out \<and>
      calls evs = [RunGet ''r1'', ThreadStarted ''r1'', RunGet ''r2''])"
proof -
  let ?R1 = "\<lparr>run_id = ''r1'', run_script_path = ''train.py'', run_model_config = ''{}'',
               run_parameters_config = ''{epochs: 3}'', status_pk = 1\<rparr>"
  let ?R2 = "\<lparr>run_id = ''r2'', run_script_path = ''gone.py'', run_model_config = ''{}'',
               run_parameters_config = ''{epochs: 3}'', status_pk = 1\<rparr>"
  have q: "query_error sample_env = None" by (simp add: sample_defs)
  have n: "new_runs sample_world = [?R1, ?R2]"
    by (simp add: new_runs_def model_defs sample_defs)
  have one: "\<And>ths ex. map th_run_id ths = [''r1''] \<Longrightarrow> \<forall>th \<in> set ths. th_self th = ex \<Longrightarrow>
               map th_self ths = [ex]"
    by (auto simp: map_eq_Cons_conv)
  have a: "\<exists>ths out evs.
      poll_body sample_env sample_coach sample_world =
        (\<lparr>co_scheduler = Some sample_scheduler,
          co_executor = Some (Executor_init sample_scheduler False)\<rparr>, ths, out) \<and>
      trace (world_of out) = trace sample_world @ RunFilter RUN_STATUS_CREATED # evs \<and>
      map th_run_id ths = [''r1''] \<and>
      map th_self ths = [Executor_init sample_scheduler False] \<and>
      \<not> returns out \<and>
      calls evs =
        [SchedulerNew, ExecutorNew ''tcp://10.0.0.1:8786'',
         RunGet ''r1'', ThreadStarted ''r1'', RunGet ''r2'']"
  proof -
    have en: "ensured_singletons sample_env sample_coach =
                Some (sample_scheduler, Executor_init sample_scheduler False)"
      by (simp add: ensured_singletons_def sample_defs)
    have d1: "dispatchable sample_env sample_coach sample_world ?R1"
      by (simp add: dispatchable_def en) (simp add: run_defs model_defs sample_defs Let_def)
    have d2: "\<not> dispatchable sample_env sample_coach sample_world ?R2"
      by (simp add: dispatchable_def en) (simp add: run_defs model_defs sample_defs Let_def)
    have c0: "co_scheduler sample_coach = None" "co_executor sample_coach = None"
      by (simp_all add: sample_defs)
    have ad: "address sample_scheduler = ''tcp://10.0.0.1:8786''" by (simp add: sample_defs)
    have up: "sample_coach\<lparr>co_scheduler := Some sample_scheduler,
                co_executor := Some (Executor_init sample_scheduler False)\<rparr> =
              \<lparr>co_scheduler = Some sample_scheduler,
               co_executor = Some (Executor_init sample_scheduler False)\<rparr>"
      by (simp add: sample_coach_def)
    from poll_dispatches_in_order[OF q, of sample_coach sample_world]
    obtain self' ths out evs where
      pb: "poll_body sample_env sample_coach sample_world = (self', ths, out)"
      and tr: "trace (world_of out) = trace sample_world @ RunFilter RUN_STATUS_CREATED # evs"
      and mp: "map th_run_id ths =
                 map run_id (takeWhile (dispatchable sample_env sample_coach sample_world)
                               (new_runs sample_world))"
      and ret: "returns out \<longleftrightarrow>
                 list_all (dispatchable sample_env sample_coach sample_world) (new_runs sample_world)"
      and cons: "new_runs sample_world \<noteq> [] \<longrightarrow>
              (case ensured_singletons sample_env sample_coach of
                 None \<Rightarrow>
                   self' = sample_coach \<and> calls evs = [SchedulerNew] \<and>
                   (\<exists>err v. scheduler_new sample_env = Inl err \<and> out = Raises err v)
               | Some (s, ex) \<Rightarrow>
                   self' = sample_coach\<lparr>co_scheduler := Some s, co_executor := Some ex\<rparr> \<and>
                   (\<forall>s0. co_scheduler sample_coach = Some s0 \<longrightarrow> s = s0) \<and>
                   (\<forall>ex0. co_executor sample_coach = Some ex0 \<longrightarrow> ex = ex0) \<and>
                   (co_executor sample_coach = None \<longrightarrow> ex = Executor_init s False) \<and>
                   (\<forall>th \<in> set ths. th_self th = ex) \<and>
                   calls evs =
                     (if co_scheduler sample_coach = None then [SchedulerNew] else []) @
                     (if co_executor sample_coach = None then [ExecutorNew (address s)] else []) @
                     dispatch_calls (dispatchable sample_env sample_coach sample_world)
                       (new_runs sample_world))"
      by (elim exE conjE) (rule that, assumption+)
    from mp n d1 d2 have m1: "map th_run_id ths = [''r1'']" by simp
    from ret n d1 d2 have nr: "\<not> returns out" by simp
    from cons n en have s': "self' = sample_coach\<lparr>co_scheduler := Some sample_scheduler,
                co_executor := Some (Executor_init sample_scheduler False)\<rparr>"
      and own: "\<forall>th \<in> set ths. th_self th = Executor_init sample_scheduler False"
      and cl: "calls evs =
                     (if co_scheduler sample_coach = None then [SchedulerNew] else []) @
                     (if co_executor sample_coach = None
                      then [ExecutorNew (address sample_scheduler)] else []) @
                     dispatch_calls (dispatchable sample_env sample_coach sample_world)
                       [?R1, ?R2]"
      by simp_all
    from cl c0 ad d1 d2 have cl': "calls evs =
        [SchedulerNew, ExecutorNew ''tcp://10.0.0.1:8786'',
         RunGet ''r1'', ThreadStarted ''r1'', RunGet ''r2'']" by simp
    from pb s' up tr m1 one[OF m1 own] nr cl' show ?thesis
      by (intro exI[of _ ths] exI[of _ out] exI[of _ evs]) simp
  qed
  have b: "\<exists>ths out evs.
      poll_body sample_env local_coach sample_world = (local_coach, ths, out) \<and>
      trace (world_of out) = trace sample_world @ RunFilter RUN_STATUS_CREATED # evs \<and>
      map th_run_id ths = [''r1''] \<and>
      map th_self ths = [Executor_init sample_scheduler True] \<and>
      \<not> returns out \<and>
      calls evs = [RunGet ''r1'', ThreadStarted ''r1'', RunGet ''r2'']"
  proof -
    have en: "ensured_singletons sample_env local_coach =
                Some (sample_scheduler, Executor_init sample_scheduler True)"
      by (simp add: ensured_singletons_def local_coach_def)
    have d1: "dispatchable sample_env local_coach sample_world ?R1"
      by (simp add: dispatchable_def en) (simp add: run_defs model_defs sample_defs Let_def)
    have d2: "\<not> dispatchable sample_env local_coach sample_world ?R2"
      by (simp add: dispatchable_def en) (simp add: run_defs model_defs sample_defs Let_def)
    have c0: "co_scheduler local_coach \<noteq> None" "co_executor local_coach \<noteq> None"
      by (simp_all add: local_coach_def)
    have up: "local_coach\<lparr>co_scheduler := Some sample_scheduler,
                co_executor := Some (Executor_init sample_scheduler True)\<rparr> = local_coach"
      by (simp add: local_coach_def)
    from poll_dispatches_in_order[OF q, of local_coach sample_world]
    obtain self' ths out evs where
      pb: "poll_body sample_env local_coach sample_world = (self', ths, out)"
      and tr: "trace (world_of out) = trace sample_world @ RunFilter RUN_STATUS_CREATED # evs"
      and mp: "map th_run_id ths =
                 map run_id (takeWhile (dispatchable sample_env local_coach sample_world)
                               (new_runs sample_world))"
      and ret: "returns out \<longleftrightarrow>
                 list_all (dispatchable sample_env local_coach sample_world) (new_runs sample_world)"
      and cons: "new_runs sample_world \<noteq> [] \<longrightarrow>
              (case ensured_singletons sample_env local_coach of
                 None \<Rightarrow>
                   self' = local_coach \<and> calls evs = [SchedulerNew] \<and>
                   (\<exists>err v. scheduler_new sample_env = Inl err \<and> out = Raises err v)
               | Some (s, ex) \<Rightarrow>
                   self' = local_coach\<lparr>co_scheduler := Some s, co_executor := Some ex\<rparr> \<and>
                   (\<forall>s0. co_scheduler local_coach = Some s0 \<longrightarrow> s = s0) \<and>
                   (\<forall>ex0. co_executor local_coach = Some ex0 \<longrightarrow> ex = ex0) \<and>
                   (co_executor local_coach = None \<longrightarrow> ex = Executor_init s False) \<and>
                   (\<forall>th \<in> set ths. th_self th = ex) \<and>
                   calls evs =
                     (if co_scheduler local_coach = None then [SchedulerNew] else []) @
                     (if co_executor local_coach = None then [ExecutorNew (address s)] else []) @
                     dispatch_calls (dispatchable sample_env local_coach sample_world)
                       (new_runs sample_world))"
      by (elim exE conjE) (rule that, assumption+)
    from mp n d1 d2 have m1: "map th_run_id ths = [''r1'']" by simp
    from ret n d1 d2 have nr: "\<not> returns out" by simp
    from cons n en have s': "self' = local_coach\<lparr>co_scheduler := Some sample_scheduler,
                co_executor := Some (Executor_init sample_scheduler True)\<rparr>"
      and own: "\<forall>th \<in> set ths. th_self th = Executor_init sample_scheduler True"
      and cl: "calls evs =
                     (if co_scheduler local_coach = None then [SchedulerNew] else []) @
                     (if co_executor local_coach = None
                      then [ExecutorNew (address sample_scheduler)] else []) @
                     dispatch_calls (dispatchable sample_env local_coach sample_world)
                       [?R1, ?R2]"
      by simp_all
    from cl c0 d1 d2 have cl': "calls evs = [RunGet ''r1'', ThreadStarted ''r1'', RunGet ''r2'']"
      by simp
    from pb s' up tr m1 one[OF m1 own] nr cl' show ?thesis
      by (intro exI[of _ ths] exI[of _ out] exI[of _ evs]) simp
  qed
  from a b show ?thesis by (rule conjI)
qed

section \<open>The loop of the supervisor\<close>

lemma execute_benign: "raises_Exceptions e \<Longrightarrow> benign (execute e self rid w)"
  by (auto simp: execute_def safe_object_get_Run_def Let_def raises_Exceptions_def
      split: option.splits sum.splits body.splits)

lemma dispatch_runs_ready_benign:
  assumes "raises_Exceptions e"
      and "co_scheduler self = Some s" and "co_executor self = Some ex"
  shows "benign (snd (snd (dispatch_runs e self rs w)))"
proof (induction rs arbitrary: w)
  case Nil
  show ?case by simp
next
  case (Cons run rest)
  let ?w1 = "logger_info (''Sending new run ('' @ str_Run run @ '') to the executor'') w"
  note eq = dispatch_runs_Cons_ready[OF assms(2,3), where e = e and run = run and rest = rest
              and w = w]
  have be: "benign (execute e ex (run_id run) ?w1)" by (rule execute_benign[OF assms(1)])
  show ?case
  proof (cases "execute e ex (run_id run) ?w1")
    case (Raises err w4)
    with eq be show ?thesis by (simp del: dispatch_runs.simps)
  next
    case (Diverges w4)
    with be show ?thesis by simp
  next
    case (Returns th w4)
    obtain self3 ths out where r: "dispatch_runs e self rest w4 = (self3, ths, out)"
      by (cases "dispatch_runs e self rest w4")
    from Cons.IH[of w4] r have "benign out" by simp
    with eq Returns r show ?thesis by (simp del: dispatch_runs.simps)
  qed
qed

lemma dispatch_runs_benign:
  assumes "raises_Exceptions e"
  shows "benign (snd (snd (dispatch_runs e self rs w)))"
proof (cases rs)
  case Nil
  then show ?thesis by simp
next
  case (Cons run rest)
  show ?thesis
  proof (cases "ensured_singletons e self")
    case None
    from dispatch_runs_no_scheduler[OF None, of run rest w] obtain err v where
      err: "scheduler_new e = Inl err"
      and eq: "dispatch_runs e self (run # rest) w = (self, [], Raises err v)"
      by (elim exE conjE) (rule that, assumption+)
    from assms err have "is_Exception err" by (simp add: raises_Exceptions_def)
    with eq Cons show ?thesis by (simp del: dispatch_runs.simps)
  next
    case (Some p)
    obtain s ex where p: "p = (s, ex)" by (cases p)
    with Some have en: "ensured_singletons e self = Some (s, ex)" by simp
    let ?self2 = "self\<lparr>co_scheduler := Some s, co_executor := Some ex\<rparr>"
    from dispatch_runs_first[OF en, of w run rest] obtain w3 where
      eq: "dispatch_runs e self (run # rest) w =
             (case execute e ex (run_id run) w3 of
                Raises err w4 \<Rightarrow> (?self2, [], Raises err w4)
              | Diverges w4 \<Rightarrow> (?self2, [], Diverges w4)
              | Returns th w4 \<Rightarrow>
                  (case dispatch_runs e ?self2 rest w4 of
                     (self3, ths, out) \<Rightarrow> (self3, th # ths, out)))"
      by (elim exE conjE) (rule that, assumption+)
    have be: "benign (execute e ex (run_id run) w3)" by (rule execute_benign[OF assms])
    show ?thesis
    proof (cases "execute e ex (run_id run) w3")
      case (Raises err w4)
      with eq be Cons show ?thesis by (simp del: dispatch_runs.simps)
    next
      case (Diverges w4)
      with be show ?thesis by simp
    next
      case (Returns th w4)
      have s2: "co_scheduler ?self2 = Some s" and x2: "co_executor ?self2 = Some ex"
        by simp_all
      obtain self3 ths out where r: "dispatch_runs e ?self2 rest w4 = (self3, ths, out)"
        by (cases "dispatch_runs e ?self2 rest w4")
      from dispatch_runs_ready_benign[OF assms s2 x2, of rest w4] r have "benign out" by simp
      with eq Returns r Cons show ?thesis by (simp del: dispatch_runs.simps)
    qed
  qed
qed

lemma poll_body_benign:
  "raises_Exceptions e \<Longrightarrow> benign (snd (snd (poll_body e self w)))"
  using dispatch_runs_benign[of e self "new_runs w" "emit (RunFilter RUN_STATUS_CREATED) w"]
  by (auto simp: poll_body_def Let_def raises_Exceptions_def split: option.splits)

lemma poll_body_trace:
  "\<exists>evs. trace (world_of (snd (snd (poll_body e self w)))) =
           trace w @ RunFilter RUN_STATUS_CREATED # evs"
proof (cases "query_error e")
  case (Some err)
  then show ?thesis by (simp add: poll_body_def Let_def emit_simps)
next
  case None
  let ?w1 = "emit (RunFilter RUN_STATUS_CREATED) w"
  from dispatch_runs_props[of e self "new_runs w" ?w1] obtain self' ths out cs where
    r: "dispatch_runs e self (new_runs w) ?w1 = (self', ths, out)"
    and mc: "makes_calls ?w1 (world_of out) cs"
    by (elim exE conjE) (rule that, assumption+)
  from mc obtain evs where "trace (world_of out) = trace ?w1 @ evs"
    by (auto simp: makes_calls_def)
  with None r show ?thesis by (simp add: poll_body_def Let_def emit_simps)
qed

text \<open>
  One cycle: the query comes first; an error of the \<^verbatim>\<open>try\<close> block is logged; the
  log line and the sleep come last, and the cycle ends normally.
\<close>

lemma poll_cycle_continues:
  assumes "raises_Exceptions e"
  shows "\<exists>self1 ths out w1 evs.
           poll_body e self w = (self1, ths, out) \<and>
           poll_cycle T e self w = (self1, ths, Returns () w1) \<and>
           trace (world_of out) = trace w @ RunFilter RUN_STATUS_CREATED # evs \<and>
           statuses w1 = statuses (world_of out) \<and> runs w1 = runs (world_of out) \<and>
           (case out of
              Returns u w0 \<Rightarrow>
                trace w1 = trace w0 @
                  [Logged INFO (''Scheduler sleeping for '' @ str_nat T @ '' seconds''), Slept T]
            | Raises err w0 \<Rightarrow>
                trace w1 = trace w0 @
                  [Logged ERROR (''Error in scheduler: '' @ str_exn err),
                   Logged INFO (''Scheduler sleeping for '' @ str_nat T @ '' seconds''), Slept T]
            | Diverges w0 \<Rightarrow> False)"
proof -
  obtain self1 ths out where b: "poll_body e self w = (self1, ths, out)"
    by (cases "poll_body e self w")
  from poll_body_benign[OF assms, of self w] b have be: "benign out" by simp
  from poll_body_trace[of e self w] b obtain evs where
    tr: "trace (world_of out) = trace w @ RunFilter RUN_STATUS_CREATED # evs" by auto
  show ?thesis
  proof (cases out)
    case (Returns u w0)
    with b tr show ?thesis
      by (intro exI[of _ self1] exI[of _ ths] exI[of _ out]
            exI[of _ "emit (Slept T)
              (logger_info (''Scheduler sleeping for '' @ str_nat T @ '' seconds'') w0)"]
            exI[of _ evs])
         (simp add: poll_cycle_def emit_simps logger_simps)
  next
    case (Raises err w0)
    with b tr be show ?thesis
      by (intro exI[of _ self1] exI[of _ ths] exI[of _ out]
            exI[of _ "emit (Slept T)
              (logger_info (''Scheduler sleeping for '' @ str_nat T @ '' seconds'')
                (logger_error (''Error in scheduler: '' @ str_exn err) w0))"]
            exI[of _ evs])
         (simp add: poll_cycle_def emit_simps logger_simps)
  next
    case (Diverges w0)
    with be show ?thesis by simp
  qed
qed

text \<open>The loop over one more cycle.\<close>

lemma threaded_scheduler_snoc:
  "threaded_scheduler T (pre @ [(e, others)]) self w =
     (case threaded_scheduler T pre self w of
        Looping c ths v \<Rightarrow>
          (case poll_cycle T e c v of
             (c1, ths1, Raises err v1) \<Rightarrow> Stopped err v1
           | (c1, ths1, Diverges v1) \<Rightarrow> Stuck v1
           | (c1, ths1, Returns u v1) \<Rightarrow> Looping c1 (ths @ ths1) (others v1))
      | Stopped err v \<Rightarrow> Stopped err v
      | Stuck v \<Rightarrow> Stuck v)"
proof (induction pre arbitrary: self w)
  case Nil
  show ?case by (simp split: prod.splits outcome.splits)
next
  case (Cons c rest)
  obtain e' others' where c: "c = (e', others')" by (cases c)
  show ?case
    by (simp add: c Cons.IH split: prod.splits outcome.splits loop.splits)
qed

lemma loop_continues:
  assumes "list_all (\<lambda>c. raises_Exceptions (fst c)) cycles"
  shows "\<exists>self' ths w'. threaded_scheduler T cycles self w = Looping self' ths w'"
  using assms
proof (induction cycles arbitrary: self w)
  case Nil
  show ?case by simp
next
  case (Cons c rest)
  obtain e others where c: "c = (e, others)" by (cases c)
  with Cons.prems have re: "raises_Exceptions e"
    and rr: "list_all (\<lambda>c. raises_Exceptions (fst c)) rest" by simp_all
  from poll_cycle_continues[OF re, of self w T] obtain self1 ths w1 where
    pc: "poll_cycle T e self w = (self1, ths, Returns () w1)" by blast
  from Cons.IH[OF rr, of self1 "others w1"] obtain self2 ths' w2 where
    "threaded_scheduler T rest self1 (others w1) = Looping self2 ths' w2" by blast
  with pc c show ?case by simp
qed


text \<open>
  C4. When every error the outside raises during the cycles is an instance of
  \<open>Exception\<close>: after any number of cycles, and whatever the other threads do between
  them, the loop is still looping. And every one of the cycles is run by the loop: the
  cycle starts in the state in which the loop is after the cycles before it; it begins
  with the query; an error raised by the query or by a dispatch is caught and logged in
  the line that names it; the last two events of the cycle, whether it succeeded or
  failed, are the log line of the sleep and the sleep of \<open>T\<close> seconds, and nothing
  else changes; and the loop then goes on, from that world once the other threads have
  acted, with the Coach and the threads of the cycle.
\<close>

theorem scheduler_loop_survives:
  assumes "list_all (\<lambda>c. raises_Exceptions (fst c)) cycles"
  shows "(\<exists>self' ths w'. threaded_scheduler T cycles self w = Looping self' ths w') \<and>
         (\<forall>pre e others post. cycles = pre @ (e, others) # post \<longrightarrow>
            (\<exists>c ths v c1 ths1 out v1 evs.
               threaded_scheduler T pre self w = Looping c ths v \<and>
               poll_body e c v = (c1, ths1, out) \<and>
               trace (world_of out) = trace v @ RunFilter RUN_STATUS_CREATED # evs \<and>
               (case out of
                  Returns u v0 \<Rightarrow>
                    trace v1 = trace v0 @
                      [Logged INFO (''Scheduler sleeping for '' @ str_nat T @ '' seconds''),
                       Slept T]
                | Raises err v0 \<Rightarrow>
                    trace v1 = trace v0 @
                      [Logged ERROR (''Error in scheduler: '' @ str_exn err),
                       Logged INFO (''Scheduler sleeping for '' @ str_nat T @ '' seconds''),
                       Slept T]
                | Diverges v0 \<Rightarrow> False) \<and>
               statuses v1 = statuses (world_of out) \<and> runs v1 = runs (world_of out) \<and>
               poll_cycle T e c v = (c1, ths1, Returns () v1) \<and>
               threaded_scheduler T (pre @ [(e, others)]) self w =
                 Looping c1 (ths @ ths1) (others v1)))"
proof (intro conjI allI impI)
  show "\<exists>self' ths w'. threaded_scheduler T cycles self w = Looping self' ths w'"
    by (rule loop_continues[OF assms])
next
  fix pre e others post
  assume split: "cycles = pre @ (e, others) # post"
  with assms have rp: "list_all (\<lambda>c. raises_Exceptions (fst c)) pre"
    and re: "raises_Exceptions e" by simp_all
  from loop_continues[OF rp, of T self w] obtain c ths v where
    l: "threaded_scheduler T pre self w = Looping c ths v" by blast
  from poll_cycle_continues[OF re, of c v T] obtain c1 ths1 out v1 evs where
    pb: "poll_body e c v = (c1, ths1, out)"
    and pc: "poll_cycle T e c v = (c1, ths1, Returns () v1)"
    and tr: "trace (world_of out) = trace v @ RunFilter RUN_STATUS_CREATED # evs"
    and st: "statuses v1 = statuses (world_of out)"
    and rn: "runs v1 = runs (world_of out)"
    and fin: "(case out of
                  Returns u v0 \<Rightarrow>
                    trace v1 = trace v0 @
                      [Logged INFO (''Scheduler sleeping for '' @ str_nat T @ '' seconds''),
                       Slept T]
                | Raises err v0 \<Rightarrow>
                    trace v1 = trace v0 @
                      [Logged ERROR (''Error in scheduler: '' @ str_exn err),
                       Logged INFO (''Scheduler sleeping for '' @ str_nat T @ '' seconds''),
                       Slept T]
                | Diverges v0 \<Rightarrow> False)"
    by (elim exE conjE) (rule that, assumption+)
  have nx: "threaded_scheduler T (pre @ [(e, others)]) self w =
              Looping c1 (ths @ ths1) (others v1)"
    by (simp add: threaded_scheduler_snoc l pc)
  from l pb tr fin st rn pc nx
  show "\<exists>c ths v c1 ths1 out v1 evs.
               threaded_scheduler T pre self w = Looping c ths v \<and>
               poll_body e c v = (c1, ths1, out) \<and>
               trace (world_of out) = trace v @ RunFilter RUN_STATUS_CREATED # evs \<and>
               (case out of
                  Returns u v0 \<Rightarrow>
                    trace v1 = trace v0 @
                      [Logged INFO (''Scheduler sleeping for '' @ str_nat T @ '' seconds''),
                       Slept T]
                | Raises err v0 \<Rightarrow>
                    trace v1 = trace v0 @
                      [Logged ERROR (''Error in scheduler: '' @ str_exn err),
                       Logged INFO (''Scheduler sleeping for '' @ str_nat T @ '' seconds''),
                       Slept T]
                | Diverges v0 \<Rightarrow> False) \<and>
               statuses v1 = statuses (world_of out) \<and> runs v1 = runs (world_of out) \<and>
               poll_cycle T e c v = (c1, ths1, Returns () v1) \<and>
               threaded_scheduler T (pre @ [(e, others)]) self w =
                 Looping c1 (ths @ ths1) (others v1)"
    by (intro exI[of _ c] exI[of _ ths] exI[of _ v] exI[of _ c1] exI[of _ ths1]
          exI[of _ out] exI[of _ v1] exI[of _ evs] conjI)
qed

lemma str_nat_5: "str_nat 5 = ''5''"
  by code_simp

theorem scheduler_loop_survives_witness:
  "(case threaded_scheduler 5 sample_cycles sample_coach sample_world of
      Looping c ths w' \<Rightarrow>
        map th_run_id ths = [''r1''] \<and>
        filter (\<lambda>ev. ev = RunFilter ''created'' \<or> ev = Slept 5) (trace w') =
          [RunFilter ''created'', Slept 5, RunFilter ''created'', Slept 5,
           RunFilter ''created'', Slept 5] \<and>
        filter (\<lambda>ev. case ev of Logged ERROR m \<Rightarrow> True | _ \<Rightarrow> False) (trace w') =
          [Logged ERROR ''Error in scheduler: connection refused'',
           Logged ERROR ''Error in scheduler: NoSuchKey'',
           Logged ERROR ''Error in scheduler: connection refused''] \<and>
        (\<exists>v0. trace w' = v0 @
           [RunFilter ''created'', Logged ERROR ''Error in scheduler: connection refused'',
            Logged INFO ''Scheduler sleeping for 5 seconds'', Slept 5])
    | Stopped err w' \<Rightarrow> False
    | Stuck w' \<Rightarrow> False)"
proof -
  have h: "list_all (\<lambda>c. raises_Exceptions (fst c)) sample_cycles"
    by (simp add: sample_cycles_def unreachable_env_def raises_Exceptions_def sample_defs)
  have sp: "sample_cycles =
              [(unreachable_env, \<lambda>w. w), (sample_env, \<lambda>w. w)] @ (unreachable_env, \<lambda>w. w) # []"
    by (simp add: sample_cycles_def)
  have q: "query_error unreachable_env =
             Some (Exception ''OperationalError'' ''connection refused'')"
    by (simp add: unreachable_env_def)
  note t = scheduler_loop_survives[OF h, of 5 sample_coach sample_world]
  from t obtain c' ths' w' where
    l: "threaded_scheduler 5 sample_cycles sample_coach sample_world = Looping c' ths' w'"
    by blast
  from t sp obtain c ths v c1 ths1 out v1 evs where
    l2: "threaded_scheduler 5 [(unreachable_env, \<lambda>w. w), (sample_env, \<lambda>w. w)]
           sample_coach sample_world = Looping c ths v"
    and pb: "poll_body unreachable_env c v = (c1, ths1, out)"
    and fin: "(case out of
                  Returns u v0 \<Rightarrow>
                    trace v1 = trace v0 @
                      [Logged INFO (''Scheduler sleeping for '' @ str_nat 5 @ '' seconds''),
                       Slept 5]
                | Raises err v0 \<Rightarrow>
                    trace v1 = trace v0 @
                      [Logged ERROR (''Error in scheduler: '' @ str_exn err),
                       Logged INFO (''Scheduler sleeping for '' @ str_nat 5 @ '' seconds''),
                       Slept 5]
                | Diverges v0 \<Rightarrow> False)"
    and nx: "threaded_scheduler 5
               ([(unreachable_env, \<lambda>w. w), (sample_env, \<lambda>w. w)] @ [(unreachable_env, \<lambda>w. w)])
               sample_coach sample_world = Looping c1 (ths @ ths1) ((\<lambda>w. w) v1)"
    by blast
  from pb q have out: "out = Raises (Exception ''OperationalError'' ''connection refused'')
                               (emit (RunFilter RUN_STATUS_CREATED) v)"
    by (simp add: poll_body_def Let_def)
  from nx l have w': "w' = v1" by (simp add: sample_cycles_def)
  from fin out have last: "trace v1 = trace v @
      [RunFilter ''created'', Logged ERROR ''Error in scheduler: connection refused'',
       Logged INFO ''Scheduler sleeping for 5 seconds'', Slept 5]"
    by (simp add: emit_simps RUN_STATUS_CREATED_def str_nat_5)
  have ev: "threaded_scheduler 5 sample_cycles sample_coach sample_world =
          Looping c' ths' w' \<longrightarrow>
        map th_run_id ths' = [''r1''] \<and>
        filter (\<lambda>ev. ev = RunFilter ''created'' \<or> ev = Slept 5) (trace w') =
          [RunFilter ''created'', Slept 5, RunFilter ''created'', Slept 5,
           RunFilter ''created'', Slept 5] \<and>
        filter (\<lambda>ev. case ev of Logged ERROR m \<Rightarrow> True | _ \<Rightarrow> False) (trace w') =
          [Logged ERROR ''Error in scheduler: connection refused'',
           Logged ERROR ''Error in scheduler: NoSuchKey'',
           Logged ERROR ''Error in scheduler: connection refused'']"
    by (auto simp add: sample_cycles_def unreachable_env_def coach_defs run_defs model_defs
        sample_defs Let_def str_nat.simps)
  from l ev w' last show ?thesis by simp
qed

section \<open>Submission\<close>

text \<open>However \<open>submit\<close> ends, it has changed no row of either table.\<close>

lemma submit_persists_nothing:
  "runs (world_of (submit c python_script job_config model_config w)) = runs w \<and>
   statuses (world_of (submit c python_script job_config model_config w)) = statuses w"
  by (simp add: submit_def check_config_def emit_simps logger_simps load_global_def
      split: sum.splits)

text \<open>
  C3. With the configuration file and the three paths in place, \<open>submit\<close> raises
  NameError where it reads \<open>json\<close>, which its module never imports: no Run is
  created and no run id is given back.
\<close>

theorem submit_raises_NameError:
  "submit sample_cli ''train.py'' ''job.json'' ''model.json'' sample_world =
     Raises (Exception ''NameError'' ''name json is not defined'') sample_world"
  by (simp add: submit_def check_config_def load_global_def cli_globals_def sample_cli_def)

end
